theory Spec2Isabelle
  imports Main "HOL-Library.Multiset"
begin

section \<open>JavaScript values and built-ins used by \<^verbatim>\<open>src/App.tsx\<close>\<close>

text \<open>
  Strings. Every string the program handles is a piece of the fetched document, which
  \<^verbatim>\<open>response.text()\<close> decodes from UTF-8, or a literal of the source. Such a string is
  a sequence of Unicode characters, and the model holds it as its UTF-8 bytes, one
  \<open>char\<close> per byte: a literal \<open>''abc''\<close> stands for itself, and a character beyond
  ASCII is the two to four bytes of its encoding. Two strings are equal (\<^verbatim>\<open>===\<close>,
  \<^verbatim>\<open>includes\<close>) exactly when their bytes are, and a string is empty (falsy)
  exactly when it has no byte. The program never takes the length of a string or an
  index into one.

  The records the parser builds are plain objects (\<^verbatim>\<open>const obj: any = {}\<close>) whose
  own properties are strings: a partial map from property names to values. Reading a
  property that the object does not have gives \<^verbatim>\<open>undefined\<close>, which is \<open>None\<close>.
\<close>

type_synonym obj = "string \<rightharpoonup> string"

datatype js_error = TypeError

text \<open>
  \<^verbatim>\<open>obj[header] = value\<close> on a plain object stores an own property, with one
  exception of the language: the name \<^verbatim>\<open>__proto__\<close> is an accessor inherited from
  \<^verbatim>\<open>Object.prototype\<close>, whose setter ignores a value that is neither an object nor
  null. A string assigned to it leaves the object as it was.
\<close>

definition setProperty :: "obj \<Rightarrow> string \<Rightarrow> string \<Rightarrow> obj" where
  "setProperty ob k v = (if k = ''__proto__'' then ob else ob(k \<mapsto> v))"

text \<open>
  The white space and line terminator characters of ECMAScript, each as its UTF-8 bytes:
  U+0009 to U+000D, U+0020, U+00A0, U+1680, U+2000 to U+200A, U+2028, U+2029, U+202F,
  U+205F, U+3000 and U+FEFF.
\<close>

definition whiteSpaceCodes :: "string list" where
  "whiteSpaceCodes =
     [[CHR 0x09], [CHR 0x0A], [CHR 0x0B], [CHR 0x0C], [CHR 0x0D], [CHR 0x20],
      [CHR 0xC2, CHR 0xA0], [CHR 0xE1, CHR 0x9A, CHR 0x80],
      [CHR 0xE2, CHR 0x80, CHR 0x80], [CHR 0xE2, CHR 0x80, CHR 0x81],
      [CHR 0xE2, CHR 0x80, CHR 0x82], [CHR 0xE2, CHR 0x80, CHR 0x83],
      [CHR 0xE2, CHR 0x80, CHR 0x84], [CHR 0xE2, CHR 0x80, CHR 0x85],
      [CHR 0xE2, CHR 0x80, CHR 0x86], [CHR 0xE2, CHR 0x80, CHR 0x87],
      [CHR 0xE2, CHR 0x80, CHR 0x88], [CHR 0xE2, CHR 0x80, CHR 0x89],
      [CHR 0xE2, CHR 0x80, CHR 0x8A], [CHR 0xE2, CHR 0x80, CHR 0xA8],
      [CHR 0xE2, CHR 0x80, CHR 0xA9], [CHR 0xE2, CHR 0x80, CHR 0xAF],
      [CHR 0xE2, CHR 0x81, CHR 0x9F], [CHR 0xE3, CHR 0x80, CHR 0x80],
      [CHR 0xEF, CHR 0xBB, CHR 0xBF]]"

text \<open>
  The number of bytes of the character of \<open>codes\<close> that \<open>s\<close> begins with, \<open>0\<close> when it
  begins with none; and \<open>s\<close> without all such characters at its beginning (\<open>skip\<close>
  counts the bytes still to drop of the character being removed).
\<close>

definition leadingCode :: "string list \<Rightarrow> string \<Rightarrow> nat" where
  "leadingCode codes s =
     (case find (\<lambda>w. take (length w) s = w) codes of None \<Rightarrow> 0 | Some w \<Rightarrow> length w)"

fun dropLeading :: "string list \<Rightarrow> nat \<Rightarrow> string \<Rightarrow> string" where
  "dropLeading codes skip [] = []"
| "dropLeading codes (Suc skip) (c # s) = dropLeading codes skip s"
| "dropLeading codes 0 (c # s) =
     (let n = leadingCode codes (c # s)
      in if n = 0 then c # s else dropLeading codes (n - 1) s)"

text \<open>
  \<^verbatim>\<open>String.prototype.trim\<close>: white space removed at both ends; at the end, the bytes
  are read backwards.
\<close>

definition trimStart :: "string \<Rightarrow> string" where
  "trimStart s = dropLeading whiteSpaceCodes 0 s"

definition trimEnd :: "string \<Rightarrow> string" where
  "trimEnd s = rev (dropLeading (map rev whiteSpaceCodes) 0 (rev s))"

definition trim :: "string \<Rightarrow> string" where
  "trim s = trimEnd (trimStart s)"

text \<open>
  The Unicode characters of a string, as code points: the UTF-8 decoding. (A byte that
  begins no well-formed sequence, which no string of the program contains, is passed on
  as a number.)
\<close>

fun codePoints :: "string \<Rightarrow> nat list" where
  "codePoints [] = []"
| "codePoints [b0] = [of_char b0]"
| "codePoints [b0, b1] =
     (if 0xC0 \<le> (of_char b0 :: nat) \<and> (of_char b0 :: nat) < 0xE0
      then [(of_char b0 - 0xC0) * 64 + of_char b1 mod 64]
      else of_char b0 # codePoints [b1])"
| "codePoints [b0, b1, b2] =
     (if (of_char b0 :: nat) < 0xC0 \<or> 0xF0 \<le> (of_char b0 :: nat)
      then of_char b0 # codePoints [b1, b2]
      else if (of_char b0 :: nat) < 0xE0
      then ((of_char b0 - 0xC0) * 64 + of_char b1 mod 64) # codePoints [b2]
      else [(of_char b0 - 0xE0) * 4096 + (of_char b1 mod 64) * 64 + of_char b2 mod 64])"
| "codePoints (b0 # b1 # b2 # b3 # s) =
     (if (of_char b0 :: nat) < 0xC0 \<or> 0xF8 \<le> (of_char b0 :: nat)
      then of_char b0 # codePoints (b1 # b2 # b3 # s)
      else if (of_char b0 :: nat) < 0xE0
      then ((of_char b0 - 0xC0) * 64 + of_char b1 mod 64) # codePoints (b2 # b3 # s)
      else if (of_char b0 :: nat) < 0xF0
      then ((of_char b0 - 0xE0) * 4096 + (of_char b1 mod 64) * 64 + of_char b2 mod 64)
             # codePoints (b3 # s)
      else ((of_char b0 - 0xF0) * 262144 + (of_char b1 mod 64) * 4096
              + (of_char b2 mod 64) * 64 + of_char b3 mod 64) # codePoints s)"

text \<open>
  \<^verbatim>\<open>String.prototype.toUpperCase\<close> replaces every character by its upper-case mapping
  of the Unicode Character Database (\<^verbatim>\<open>UnicodeData.txt\<close> and the unconditional
  mappings of \<^verbatim>\<open>SpecialCasing.txt\<close>). The tables below are those of Unicode 14: the
  mappings to one character as runs \<open>(first, last, step, upper-case of first)\<close>, and the
  mappings to several characters one by one. A character in neither table is its own
  upper case.
\<close>

definition upperCaseRuns :: "(nat \<times> nat \<times> nat \<times> nat) list" where
  "upperCaseRuns =
     [(0x61, 0x7A, 1, 0x41), (0xB5, 0xB5, 1, 0x39C), (0xE0, 0xF6, 1, 0xC0),
      (0xF8, 0xFE, 1, 0xD8), (0xFF, 0xFF, 1, 0x178), (0x101, 0x12F, 2, 0x100),
      (0x131, 0x131, 1, 0x49), (0x133, 0x137, 2, 0x132), (0x13A, 0x148, 2, 0x139),
      (0x14B, 0x177, 2, 0x14A), (0x17A, 0x17E, 2, 0x179), (0x17F, 0x17F, 1, 0x53),
      (0x180, 0x180, 1, 0x243), (0x183, 0x185, 2, 0x182), (0x188, 0x188, 1, 0x187),
      (0x18C, 0x18C, 1, 0x18B), (0x192, 0x192, 1, 0x191), (0x195, 0x195, 1, 0x1F6),
      (0x199, 0x199, 1, 0x198), (0x19A, 0x19A, 1, 0x23D), (0x19E, 0x19E, 1, 0x220),
      (0x1A1, 0x1A5, 2, 0x1A0), (0x1A8, 0x1A8, 1, 0x1A7), (0x1AD, 0x1AD, 1, 0x1AC),
      (0x1B0, 0x1B0, 1, 0x1AF), (0x1B4, 0x1B6, 2, 0x1B3), (0x1B9, 0x1B9, 1, 0x1B8),
      (0x1BD, 0x1BD, 1, 0x1BC), (0x1BF, 0x1BF, 1, 0x1F7), (0x1C5, 0x1C5, 1, 0x1C4),
      (0x1C6, 0x1C6, 1, 0x1C4), (0x1C8, 0x1C8, 1, 0x1C7), (0x1C9, 0x1C9, 1, 0x1C7),
      (0x1CB, 0x1CB, 1, 0x1CA), (0x1CC, 0x1CC, 1, 0x1CA), (0x1CE, 0x1DC, 2, 0x1CD),
      (0x1DD, 0x1DD, 1, 0x18E), (0x1DF, 0x1EF, 2, 0x1DE), (0x1F2, 0x1F2, 1, 0x1F1),
      (0x1F3, 0x1F3, 1, 0x1F1), (0x1F5, 0x1F5, 1, 0x1F4), (0x1F9, 0x21F, 2, 0x1F8),
      (0x223, 0x233, 2, 0x222), (0x23C, 0x23C, 1, 0x23B), (0x23F, 0x240, 1, 0x2C7E),
      (0x242, 0x242, 1, 0x241), (0x247, 0x24F, 2, 0x246), (0x250, 0x250, 1, 0x2C6F),
      (0x251, 0x251, 1, 0x2C6D), (0x252, 0x252, 1, 0x2C70), (0x253, 0x253, 1, 0x181),
      (0x254, 0x254, 1, 0x186), (0x256, 0x257, 1, 0x189), (0x259, 0x259, 1, 0x18F),
      (0x25B, 0x25B, 1, 0x190), (0x25C, 0x25C, 1, 0xA7AB), (0x260, 0x260, 1, 0x193),
      (0x261, 0x261, 1, 0xA7AC), (0x263, 0x263, 1, 0x194), (0x265, 0x265, 1, 0xA78D),
      (0x266, 0x266, 1, 0xA7AA), (0x268, 0x268, 1, 0x197), (0x269, 0x269, 1, 0x196),
      (0x26A, 0x26A, 1, 0xA7AE), (0x26B, 0x26B, 1, 0x2C62), (0x26C, 0x26C, 1, 0xA7AD),
      (0x26F, 0x26F, 1, 0x19C), (0x271, 0x271, 1, 0x2C6E), (0x272, 0x272, 1, 0x19D),
      (0x275, 0x275, 1, 0x19F), (0x27D, 0x27D, 1, 0x2C64), (0x280, 0x280, 1, 0x1A6),
      (0x282, 0x282, 1, 0xA7C5), (0x283, 0x283, 1, 0x1A9), (0x287, 0x287, 1, 0xA7B1),
      (0x288, 0x288, 1, 0x1AE), (0x289, 0x289, 1, 0x244), (0x28A, 0x28B, 1, 0x1B1),
      (0x28C, 0x28C, 1, 0x245), (0x292, 0x292, 1, 0x1B7), (0x29D, 0x29D, 1, 0xA7B2),
      (0x29E, 0x29E, 1, 0xA7B0), (0x345, 0x345, 1, 0x399), (0x371, 0x373, 2, 0x370),
      (0x377, 0x377, 1, 0x376), (0x37B, 0x37D, 1, 0x3FD), (0x3AC, 0x3AC, 1, 0x386),
      (0x3AD, 0x3AF, 1, 0x388), (0x3B1, 0x3C1, 1, 0x391), (0x3C2, 0x3C2, 1, 0x3A3),
      (0x3C3, 0x3CB, 1, 0x3A3), (0x3CC, 0x3CC, 1, 0x38C), (0x3CD, 0x3CE, 1, 0x38E),
      (0x3D0, 0x3D0, 1, 0x392), (0x3D1, 0x3D1, 1, 0x398), (0x3D5, 0x3D5, 1, 0x3A6),
      (0x3D6, 0x3D6, 1, 0x3A0), (0x3D7, 0x3D7, 1, 0x3CF), (0x3D9, 0x3EF, 2, 0x3D8),
      (0x3F0, 0x3F0, 1, 0x39A), (0x3F1, 0x3F1, 1, 0x3A1), (0x3F2, 0x3F2, 1, 0x3F9),
      (0x3F3, 0x3F3, 1, 0x37F), (0x3F5, 0x3F5, 1, 0x395), (0x3F8, 0x3F8, 1, 0x3F7),
      (0x3FB, 0x3FB, 1, 0x3FA), (0x430, 0x44F, 1, 0x410), (0x450, 0x45F, 1, 0x400),
      (0x461, 0x481, 2, 0x460), (0x48B, 0x4BF, 2, 0x48A), (0x4C2, 0x4CE, 2, 0x4C1),
      (0x4CF, 0x4CF, 1, 0x4C0), (0x4D1, 0x52F, 2, 0x4D0), (0x561, 0x586, 1, 0x531),
      (0x10D0, 0x10FA, 1, 0x1C90), (0x10FD, 0x10FF, 1, 0x1CBD), (0x13F8, 0x13FD, 1, 0x13F0),
      (0x1C80, 0x1C80, 1, 0x412), (0x1C81, 0x1C81, 1, 0x414), (0x1C82, 0x1C82, 1, 0x41E),
      (0x1C83, 0x1C84, 1, 0x421), (0x1C85, 0x1C85, 1, 0x422), (0x1C86, 0x1C86, 1, 0x42A),
      (0x1C87, 0x1C87, 1, 0x462), (0x1C88, 0x1C88, 1, 0xA64A), (0x1D79, 0x1D79, 1, 0xA77D),
      (0x1D7D, 0x1D7D, 1, 0x2C63), (0x1D8E, 0x1D8E, 1, 0xA7C6), (0x1E01, 0x1E95, 2, 0x1E00),
      (0x1E9B, 0x1E9B, 1, 0x1E60), (0x1EA1, 0x1EFF, 2, 0x1EA0), (0x1F00, 0x1F07, 1, 0x1F08),
      (0x1F10, 0x1F15, 1, 0x1F18), (0x1F20, 0x1F27, 1, 0x1F28), (0x1F30, 0x1F37, 1, 0x1F38),
      (0x1F40, 0x1F45, 1, 0x1F48), (0x1F51, 0x1F57, 2, 0x1F59), (0x1F60, 0x1F67, 1, 0x1F68),
      (0x1F70, 0x1F71, 1, 0x1FBA), (0x1F72, 0x1F75, 1, 0x1FC8), (0x1F76, 0x1F77, 1, 0x1FDA),
      (0x1F78, 0x1F79, 1, 0x1FF8), (0x1F7A, 0x1F7B, 1, 0x1FEA), (0x1F7C, 0x1F7D, 1, 0x1FFA),
      (0x1FB0, 0x1FB1, 1, 0x1FB8), (0x1FBE, 0x1FBE, 1, 0x399), (0x1FD0, 0x1FD1, 1, 0x1FD8),
      (0x1FE0, 0x1FE1, 1, 0x1FE8), (0x1FE5, 0x1FE5, 1, 0x1FEC), (0x214E, 0x214E, 1, 0x2132),
      (0x2170, 0x217F, 1, 0x2160), (0x2184, 0x2184, 1, 0x2183), (0x24D0, 0x24E9, 1, 0x24B6),
      (0x2C30, 0x2C5F, 1, 0x2C00), (0x2C61, 0x2C61, 1, 0x2C60), (0x2C65, 0x2C65, 1, 0x23A),
      (0x2C66, 0x2C66, 1, 0x23E), (0x2C68, 0x2C6C, 2, 0x2C67), (0x2C73, 0x2C73, 1, 0x2C72),
      (0x2C76, 0x2C76, 1, 0x2C75), (0x2C81, 0x2CE3, 2, 0x2C80), (0x2CEC, 0x2CEE, 2, 0x2CEB),
      (0x2CF3, 0x2CF3, 1, 0x2CF2), (0x2D00, 0x2D25, 1, 0x10A0), (0x2D27, 0x2D27, 1, 0x10C7),
      (0x2D2D, 0x2D2D, 1, 0x10CD), (0xA641, 0xA66D, 2, 0xA640), (0xA681, 0xA69B, 2, 0xA680),
      (0xA723, 0xA72F, 2, 0xA722), (0xA733, 0xA76F, 2, 0xA732), (0xA77A, 0xA77C, 2, 0xA779),
      (0xA77F, 0xA787, 2, 0xA77E), (0xA78C, 0xA78C, 1, 0xA78B), (0xA791, 0xA793, 2, 0xA790),
      (0xA794, 0xA794, 1, 0xA7C4), (0xA797, 0xA7A9, 2, 0xA796), (0xA7B5, 0xA7C3, 2, 0xA7B4),
      (0xA7C8, 0xA7CA, 2, 0xA7C7), (0xA7D1, 0xA7D1, 1, 0xA7D0), (0xA7D7, 0xA7D9, 2, 0xA7D6),
      (0xA7F6, 0xA7F6, 1, 0xA7F5), (0xAB53, 0xAB53, 1, 0xA7B3), (0xAB70, 0xABBF, 1, 0x13A0),
      (0xFF41, 0xFF5A, 1, 0xFF21), (0x10428, 0x1044F, 1, 0x10400),
      (0x104D8, 0x104FB, 1, 0x104B0), (0x10597, 0x105BB, 2, 0x10570),
      (0x10598, 0x105A0, 2, 0x10571), (0x105A4, 0x105B0, 2, 0x1057D),
      (0x105B4, 0x105B8, 2, 0x1058D), (0x105BC, 0x105BC, 1, 0x10595),
      (0x10CC0, 0x10CF2, 1, 0x10C80), (0x118C0, 0x118DF, 1, 0x118A0),
      (0x16E60, 0x16E7F, 1, 0x16E40), (0x1E922, 0x1E943, 1, 0x1E900)]"

definition upperCaseSpecial :: "(nat \<times> nat list) list" where
  "upperCaseSpecial =
     [(0xDF, [0x53, 0x53]), (0x149, [0x2BC, 0x4E]), (0x1F0, [0x4A, 0x30C]),
      (0x390, [0x399, 0x308, 0x301]), (0x3B0, [0x3A5, 0x308, 0x301]), (0x587, [0x535, 0x552]),
      (0x1E96, [0x48, 0x331]), (0x1E97, [0x54, 0x308]), (0x1E98, [0x57, 0x30A]),
      (0x1E99, [0x59, 0x30A]), (0x1E9A, [0x41, 0x2BE]), (0x1F50, [0x3A5, 0x313]),
      (0x1F52, [0x3A5, 0x313, 0x300]), (0x1F54, [0x3A5, 0x313, 0x301]),
      (0x1F56, [0x3A5, 0x313, 0x342]), (0x1F80, [0x1F08, 0x399]), (0x1F81, [0x1F09, 0x399]),
      (0x1F82, [0x1F0A, 0x399]), (0x1F83, [0x1F0B, 0x399]), (0x1F84, [0x1F0C, 0x399]),
      (0x1F85, [0x1F0D, 0x399]), (0x1F86, [0x1F0E, 0x399]), (0x1F87, [0x1F0F, 0x399]),
      (0x1F88, [0x1F08, 0x399]), (0x1F89, [0x1F09, 0x399]), (0x1F8A, [0x1F0A, 0x399]),
      (0x1F8B, [0x1F0B, 0x399]), (0x1F8C, [0x1F0C, 0x399]), (0x1F8D, [0x1F0D, 0x399]),
      (0x1F8E, [0x1F0E, 0x399]), (0x1F8F, [0x1F0F, 0x399]), (0x1F90, [0x1F28, 0x399]),
      (0x1F91, [0x1F29, 0x399]), (0x1F92, [0x1F2A, 0x399]), (0x1F93, [0x1F2B, 0x399]),
      (0x1F94, [0x1F2C, 0x399]), (0x1F95, [0x1F2D, 0x399]), (0x1F96, [0x1F2E, 0x399]),
      (0x1F97, [0x1F2F, 0x399]), (0x1F98, [0x1F28, 0x399]), (0x1F99, [0x1F29, 0x399]),
      (0x1F9A, [0x1F2A, 0x399]), (0x1F9B, [0x1F2B, 0x399]), (0x1F9C, [0x1F2C, 0x399]),
      (0x1F9D, [0x1F2D, 0x399]), (0x1F9E, [0x1F2E, 0x399]), (0x1F9F, [0x1F2F, 0x399]),
      (0x1FA0, [0x1F68, 0x399]), (0x1FA1, [0x1F69, 0x399]), (0x1FA2, [0x1F6A, 0x399]),
      (0x1FA3, [0x1F6B, 0x399]), (0x1FA4, [0x1F6C, 0x399]), (0x1FA5, [0x1F6D, 0x399]),
      (0x1FA6, [0x1F6E, 0x399]), (0x1FA7, [0x1F6F, 0x399]), (0x1FA8, [0x1F68, 0x399]),
      (0x1FA9, [0x1F69, 0x399]), (0x1FAA, [0x1F6A, 0x399]), (0x1FAB, [0x1F6B, 0x399]),
      (0x1FAC, [0x1F6C, 0x399]), (0x1FAD, [0x1F6D, 0x399]), (0x1FAE, [0x1F6E, 0x399]),
      (0x1FAF, [0x1F6F, 0x399]), (0x1FB2, [0x1FBA, 0x399]), (0x1FB3, [0x391, 0x399]),
      (0x1FB4, [0x386, 0x399]), (0x1FB6, [0x391, 0x342]), (0x1FB7, [0x391, 0x342, 0x399]),
      (0x1FBC, [0x391, 0x399]), (0x1FC2, [0x1FCA, 0x399]), (0x1FC3, [0x397, 0x399]),
      (0x1FC4, [0x389, 0x399]), (0x1FC6, [0x397, 0x342]), (0x1FC7, [0x397, 0x342, 0x399]),
      (0x1FCC, [0x397, 0x399]), (0x1FD2, [0x399, 0x308, 0x300]),
      (0x1FD3, [0x399, 0x308, 0x301]), (0x1FD6, [0x399, 0x342]),
      (0x1FD7, [0x399, 0x308, 0x342]), (0x1FE2, [0x3A5, 0x308, 0x300]),
      (0x1FE3, [0x3A5, 0x308, 0x301]), (0x1FE4, [0x3A1, 0x313]), (0x1FE6, [0x3A5, 0x342]),
      (0x1FE7, [0x3A5, 0x308, 0x342]), (0x1FF2, [0x1FFA, 0x399]), (0x1FF3, [0x3A9, 0x399]),
      (0x1FF4, [0x38F, 0x399]), (0x1FF6, [0x3A9, 0x342]), (0x1FF7, [0x3A9, 0x342, 0x399]),
      (0x1FFC, [0x3A9, 0x399]), (0xFB00, [0x46, 0x46]), (0xFB01, [0x46, 0x49]),
      (0xFB02, [0x46, 0x4C]), (0xFB03, [0x46, 0x46, 0x49]), (0xFB04, [0x46, 0x46, 0x4C]),
      (0xFB05, [0x53, 0x54]), (0xFB06, [0x53, 0x54]), (0xFB13, [0x544, 0x546]),
      (0xFB14, [0x544, 0x535]), (0xFB15, [0x544, 0x53B]), (0xFB16, [0x54E, 0x546]),
      (0xFB17, [0x544, 0x53D])]"

definition inRun :: "nat \<Rightarrow> nat \<times> nat \<times> nat \<times> nat \<Rightarrow> bool" where
  "inRun cp run =
     (case run of (lo, hi, step, up) \<Rightarrow> lo \<le> cp \<and> cp \<le> hi \<and> (cp - lo) mod step = 0)"

definition upperCaseOf :: "nat \<Rightarrow> nat list" where
  "upperCaseOf cp =
     (case map_of upperCaseSpecial cp of
        Some us \<Rightarrow> us
      | None \<Rightarrow>
          (case find (inRun cp) upperCaseRuns of
             Some (lo, hi, step, up) \<Rightarrow> [up + (cp - lo)]
           | None \<Rightarrow> [cp]))"

text \<open>
  The upper-case form of a string, as code points; \<open>units\<close> gives the code points of an
  ASCII literal, so that \<^verbatim>\<open>s.toUpperCase() === 'ACTIVE'\<close> is
  \<open>toUpperCase s = units ''ACTIVE''\<close>.
\<close>

definition toUpperCase :: "string \<Rightarrow> nat list" where
  "toUpperCase s = concat (map upperCaseOf (codePoints s))"

definition units :: "string \<Rightarrow> nat list" where
  "units s = map of_char s"

text \<open>
  Numbers. A number of JavaScript is an IEEE 754 double. The numbers of this program are
  NaN, the infinities and the integers that a double holds (an integer below \<open>2^53\<close> in
  absolute value, or 53 significant bits times a power of two, below \<open>2^1024\<close>); zero is
  held without its sign, which no test of the program reads. \<open>roundToDouble\<close> is the
  double nearest to an integer, the tie going to the even significand, and the infinity
  when the rounded magnitude reaches \<open>2^1024\<close>.
\<close>

datatype jsnum = NaN | Num int | PosInfinity | NegInfinity

fun bitLength :: "nat \<Rightarrow> nat" where
  "bitLength n = (if n = 0 then 0 else Suc (bitLength (n div 2)))"

definition roundMagnitude :: "nat \<Rightarrow> nat" where
  "roundMagnitude m =
     (if m < 2 ^ 53 then m
      else
        let e = bitLength m - 53; q = m div 2 ^ e; r = m mod 2 ^ e; half = 2 ^ (e - 1)
        in (if half < r \<or> (r = half \<and> odd q) then q + 1 else q) * 2 ^ e)"

definition roundToDouble :: "int \<Rightarrow> jsnum" where
  "roundToDouble i =
     (let m = roundMagnitude (nat \<bar>i\<bar>)
      in if 2 ^ 1024 \<le> m then (if i < 0 then NegInfinity else PosInfinity)
         else Num (if i < 0 then - int m else int m))"

definition isDigit :: "char \<Rightarrow> bool" where
  "isDigit c = (c \<in> set ''0123456789'')"

definition digitValue :: "char \<Rightarrow> int" where
  "digitValue c = int (of_char c) - 48"

definition decimalValue :: "string \<Rightarrow> int" where
  "decimalValue ds = foldl (\<lambda>acc d. 10 * acc + digitValue d) 0 ds"

text \<open>
  \<^verbatim>\<open>parseInt(inputString, 10)\<close>: leading white space is skipped, one sign is read,
  then the longest run of decimal digits; what follows the digits is ignored. With no
  digit the result is NaN; otherwise it is the double nearest to the signed value of the
  digits. (ECMAScript lets an engine read the digits after the twentieth as zeros; the
  engines in use round the exact value, as the model does.) No step raises an exception.
\<close>

definition parseInt :: "string \<Rightarrow> jsnum" where
  "parseInt inputString =
     (let S = trimStart inputString;
          sign = (if S \<noteq> [] \<and> hd S = CHR ''-'' then - 1 else 1);
          S' = (if S \<noteq> [] \<and> (hd S = CHR ''+'' \<or> hd S = CHR ''-'') then tl S else S);
          Z = takeWhile isDigit S'
      in if Z = [] then NaN else roundToDouble (sign * decimalValue Z))"

text \<open>
  The subtraction of two numbers: NaN as soon as one operand is NaN or both are the same
  infinity; otherwise the double nearest to the exact difference.
\<close>

fun jsMinus :: "jsnum \<Rightarrow> jsnum \<Rightarrow> jsnum" where
  "jsMinus NaN y = NaN"
| "jsMinus x NaN = NaN"
| "jsMinus (Num a) (Num b) = roundToDouble (a - b)"
| "jsMinus (Num a) PosInfinity = NegInfinity"
| "jsMinus (Num a) NegInfinity = PosInfinity"
| "jsMinus PosInfinity PosInfinity = NaN"
| "jsMinus PosInfinity y = PosInfinity"
| "jsMinus NegInfinity NegInfinity = NaN"
| "jsMinus NegInfinity y = NegInfinity"

text \<open>\<^verbatim>\<open>x || d\<close> on a string or undefined \<open>x\<close>: \<open>d\<close> when \<open>x\<close> is undefined or empty.\<close>

definition orElse :: "string option \<Rightarrow> string \<Rightarrow> string" where
  "orElse x d = (case x of None \<Rightarrow> d | Some s \<Rightarrow> if s = [] then d else s)"

text \<open>\<^verbatim>\<open>o?.k\<close>: undefined when \<open>o\<close> is undefined, the property otherwise.\<close>

definition optionalField :: "obj option \<Rightarrow> string \<Rightarrow> string option" where
  "optionalField ob k = (case ob of None \<Rightarrow> None | Some p \<Rightarrow> p k)"

text \<open>
  \<^verbatim>\<open>Array.prototype.sort(comparefn)\<close>. The sort calls the comparison function on pairs
  of elements and reads whether the result is below, equal to or above zero; a NaN counts
  as zero. \<open>sortCompare\<close> is that reading (an infinity is given as \<open>1\<close> or \<open>- 1\<close>).
\<close>

definition sortCompare :: "('a \<Rightarrow> 'a \<Rightarrow> jsnum) \<Rightarrow> 'a \<Rightarrow> 'a \<Rightarrow> int" where
  "sortCompare comparefn x y =
     (case comparefn x y of NaN \<Rightarrow> 0 | Num v \<Rightarrow> v | PosInfinity \<Rightarrow> 1 | NegInfinity \<Rightarrow> - 1)"

text \<open>
  ECMAScript fixes the result of the sort for a comparison function that is consistent on
  the elements and never returns NaN; for any other the order is left to the engine, and
  is some rearrangement of the elements. An engine calls the comparison function only
  through \<open>SortCompare\<close>, which has turned a NaN into zero, so what it returns is fixed
  as soon as the comparison so read is consistent: the conditions below, for all elements
  \<open>a\<close>, \<open>b\<close>, \<open>c\<close>. The result is then the elements in ascending order of the
  comparison, elements that compare equal in their original order (the sort is stable);
  \<open>stableSort\<close>, the insertion sort, computes it.
\<close>

definition consistentComparator :: "('a \<Rightarrow> 'a \<Rightarrow> int) \<Rightarrow> 'a set \<Rightarrow> bool" where
  "consistentComparator cmp S \<longleftrightarrow>
     (\<forall>a\<in>S. cmp a a = 0)
     \<and> (\<forall>a\<in>S. \<forall>b\<in>S. cmp a b = 0 \<longrightarrow> cmp b a = 0)
     \<and> (\<forall>a\<in>S. \<forall>b\<in>S. \<forall>c\<in>S. cmp a b = 0 \<and> cmp b c = 0 \<longrightarrow> cmp a c = 0)
     \<and> (\<forall>a\<in>S. \<forall>b\<in>S. \<forall>c\<in>S. cmp a b < 0 \<and> cmp b c < 0 \<longrightarrow> cmp a c < 0)
     \<and> (\<forall>a\<in>S. \<forall>b\<in>S. \<forall>c\<in>S. 0 < cmp a b \<and> 0 < cmp b c \<longrightarrow> 0 < cmp a c)"

fun insertSorted :: "('a \<Rightarrow> 'a \<Rightarrow> int) \<Rightarrow> 'a \<Rightarrow> 'a list \<Rightarrow> 'a list" where
  "insertSorted cmp x [] = [x]"
| "insertSorted cmp x (y # ys) =
     (if cmp x y \<le> 0 then x # y # ys else y # insertSorted cmp x ys)"

definition stableSort :: "('a \<Rightarrow> 'a \<Rightarrow> int) \<Rightarrow> 'a list \<Rightarrow> 'a list" where
  "stableSort cmp xs = foldr (insertSorted cmp) xs []"

text \<open>
  The sort of a JavaScript engine: any function of the comparison as read and of the list
  that rearranges the elements and, where the comparison is consistent, returns the stable
  sorted order. \<^verbatim>\<open>mobileCards\<close> takes the engine as an argument, so that what is
  proved of it holds for every engine.
\<close>

typedef 'a sort_engine =
  "{srt :: ('a \<Rightarrow> 'a \<Rightarrow> int) \<Rightarrow> 'a list \<Rightarrow> 'a list.
      \<forall>cmp xs. mset (srt cmp xs) = mset xs
        \<and> (consistentComparator cmp (set xs) \<longrightarrow> srt cmp xs = stableSort cmp xs)}"
proof -
  have ins: "mset (insertSorted cmp x ys) = add_mset x (mset ys)"
    for cmp :: "'a \<Rightarrow> 'a \<Rightarrow> int" and x ys
    by (induction ys) auto
  have "mset (stableSort cmp xs) = mset xs" for cmp :: "'a \<Rightarrow> 'a \<Rightarrow> int" and xs
    by (induction xs) (auto simp: stableSort_def ins)
  then show ?thesis by (intro exI [of _ stableSort]) simp
qed

definition engineSort :: "'a sort_engine \<Rightarrow> ('a \<Rightarrow> 'a \<Rightarrow> jsnum) \<Rightarrow> 'a list \<Rightarrow> 'a list" where
  "engineSort engine comparefn xs = Rep_sort_engine engine (sortCompare comparefn) xs"

text \<open>An engine whose sort is the insertion sort, for the examples.\<close>

definition insertionEngine :: "'a sort_engine" where
  "insertionEngine = Abs_sort_engine stableSort"

section \<open>The parser: the loop of \<^verbatim>\<open>fetchData\<close>\<close>

datatype table = Partner_Master | Card_UI_Config | Product_Detail_Config | Display_Rules

record parsed_data =
  partnerMaster :: "obj list"
  cardUIConfig :: "obj list"
  productDetailConfig :: "obj list"
  displayRules :: "obj list"

record parser_state = parsed_data +
  currentTable :: "table option"
  currentHeaders :: "string list"

text \<open>
  \<^verbatim>\<open>row[index] ? row[index].trim() : ''\<close>: a cell that is missing (index beyond the
  row's end) or empty gives the empty string.
\<close>

definition cellValue :: "string list \<Rightarrow> nat \<Rightarrow> string" where
  "cellValue row index =
     (if index < length row \<and> row ! index \<noteq> [] then trim (row ! index) else [])"

text \<open>
  \<^verbatim>\<open>currentHeaders.forEach((header, index) => { if (header) obj[header] = ... })\<close>,
  from position \<open>index\<close> on.
\<close>

fun forEachHeader :: "string list \<Rightarrow> nat \<Rightarrow> string list \<Rightarrow> obj \<Rightarrow> obj" where
  "forEachHeader [] index row ob = ob"
| "forEachHeader (header # headers) index row ob =
     forEachHeader headers (Suc index) row
       (if header \<noteq> [] then setProperty ob header (cellValue row index) else ob)"

definition buildRecord :: "string list \<Rightarrow> string list \<Rightarrow> obj" where
  "buildRecord headers row = forEachHeader headers 0 row Map.empty"

definition isBlankRow :: "string list \<Rightarrow> bool" where
  "isBlankRow row = (length row = 0 \<or> list_all (\<lambda>cell. cell = [] \<or> trim cell = []) row)"

definition firstCellOf :: "string list \<Rightarrow> string option" where
  "firstCellOf row = (case row of [] \<Rightarrow> None | c # _ \<Rightarrow> Some (trim c))"

definition pushRecord :: "table \<Rightarrow> obj \<Rightarrow> parser_state \<Rightarrow> parser_state" where
  "pushRecord t ob st =
     (case t of
        Partner_Master \<Rightarrow> st\<lparr>partnerMaster := partnerMaster st @ [ob]\<rparr>
      | Card_UI_Config \<Rightarrow> st\<lparr>cardUIConfig := cardUIConfig st @ [ob]\<rparr>
      | Product_Detail_Config \<Rightarrow> st\<lparr>productDetailConfig := productDetailConfig st @ [ob]\<rparr>
      | Display_Rules \<Rightarrow> st\<lparr>displayRules := displayRules st @ [ob]\<rparr>)"

text \<open>One iteration of \<^verbatim>\<open>for (const row of rows)\<close>.\<close>

definition processRow :: "string list \<Rightarrow> parser_state \<Rightarrow> parser_state" where
  "processRow row st =
     (if isBlankRow row then st\<lparr>currentTable := None\<rparr>
      else
        let firstCell = firstCellOf row in
        if firstCell = Some ''Partner_ID'' \<and> ''Partner_Name'' \<in> set row then
          st\<lparr>currentTable := Some Partner_Master, currentHeaders := map trim row\<rparr>
        else if firstCell = Some ''Config_ID'' \<and> ''Card_Title'' \<in> set row then
          st\<lparr>currentTable := Some Card_UI_Config, currentHeaders := map trim row\<rparr>
        else if firstCell = Some ''Config_ID'' \<and> ''Hero_Banner_URL'' \<in> set row then
          st\<lparr>currentTable := Some Product_Detail_Config, currentHeaders := map trim row\<rparr>
        else if firstCell = Some ''Rule_ID'' \<and> ''User_Segment'' \<in> set row then
          st\<lparr>currentTable := Some Display_Rules, currentHeaders := map trim row\<rparr>
        else
          (case currentTable st of
             None \<Rightarrow> st
           | Some t \<Rightarrow> pushRecord t (buildRecord (currentHeaders st) row) st))"

definition initialState :: parser_state where
  "initialState =
     \<lparr>partnerMaster = [], cardUIConfig = [], productDetailConfig = [], displayRules = [],
      currentTable = None, currentHeaders = []\<rparr>"

definition scanRows :: "string list list \<Rightarrow> parser_state \<Rightarrow> parser_state" where
  "scanRows rows st = fold processRow rows st"

text \<open>The four arrays handed to \<^verbatim>\<open>setData\<close> once every row has been scanned.\<close>

definition dataOf :: "parser_state \<Rightarrow> parsed_data" where
  "dataOf st =
     \<lparr>partnerMaster = partnerMaster st, cardUIConfig = cardUIConfig st,
      productDetailConfig = productDetailConfig st, displayRules = displayRules st\<rparr>"

definition parseGrid :: "string list list \<Rightarrow> parsed_data" where
  "parseGrid rows = dataOf (scanRows rows initialState)"

section \<open>The derived views: \<^verbatim>\<open>dashboardRows\<close> and \<^verbatim>\<open>mobileCards\<close>\<close>

definition dashboardRow :: "parsed_data \<Rightarrow> obj \<Rightarrow> obj" where
  "dashboardRow d config =
     (let partner = find (\<lambda>p. p ''Partner_ID'' = config ''Partner_ID'') (partnerMaster d);
          rule = find (\<lambda>r. r ''Config_ID'' = config ''Config_ID'') (displayRules d)
      in config(''Partner_Name'' \<mapsto> orElse (optionalField partner ''Partner_Name'') ''Unknown'',
                ''Status'' \<mapsto> orElse (optionalField partner ''Status'') ''INACTIVE'',
                ''Priority'' \<mapsto> orElse (optionalField rule ''Priority'') ''0'',
                ''User_Segment'' \<mapsto> orElse (optionalField rule ''User_Segment'') ''All''))"

definition dashboardRows :: "parsed_data option \<Rightarrow> obj list" where
  "dashboardRows data =
     (case data of None \<Rightarrow> [] | Some d \<Rightarrow> map (dashboardRow d) (cardUIConfig d))"

text \<open>
  \<^verbatim>\<open>data.partnerMaster.filter(p => p.Status.toUpperCase() === 'ACTIVE')\<close>: the method
  call on \<^verbatim>\<open>p.Status\<close> throws a TypeError at the first partner that has no
  \<^verbatim>\<open>Status\<close> property.
\<close>

fun filterActive :: "obj list \<Rightarrow> js_error + obj list" where
  "filterActive [] = Inr []"
| "filterActive (p # ps) =
     (case p ''Status'' of
        None \<Rightarrow> Inl TypeError
      | Some status \<Rightarrow>
          (case filterActive ps of
             Inl e \<Rightarrow> Inl e
           | Inr rest \<Rightarrow> Inr (if toUpperCase status = units ''ACTIVE'' then p # rest else rest)))"

text \<open>The second filter: the rules of the card, and the test on their segments.\<close>

definition segmentFilter :: "parsed_data \<Rightarrow> string \<Rightarrow> obj \<Rightarrow> bool" where
  "segmentFilter d userSegment c =
     (let rules = filter (\<lambda>r. r ''Config_ID'' = c ''Config_ID'') (displayRules d) in
      if length rules = 0 then True
      else list_ex (\<lambda>r. r ''User_Segment'' = Some ''All'' \<or> r ''User_Segment'' = Some userSegment)
             rules)"

text \<open>The priority the comparison function computes for a card, and the function itself.\<close>

definition cardPriority :: "parsed_data \<Rightarrow> obj \<Rightarrow> jsnum" where
  "cardPriority d a =
     (let ruleA = find (\<lambda>r. r ''Config_ID'' = a ''Config_ID'') (displayRules d)
      in parseInt (orElse (optionalField ruleA ''Priority'') ''0''))"

definition comparePriority :: "parsed_data \<Rightarrow> obj \<Rightarrow> obj \<Rightarrow> jsnum" where
  "comparePriority d a b = jsMinus (cardPriority d b) (cardPriority d a)"

definition mobileCards ::
  "obj sort_engine \<Rightarrow> parsed_data option \<Rightarrow> string \<Rightarrow> js_error + obj list" where
  "mobileCards engine data userSegment =
     (case data of
        None \<Rightarrow> Inr []
      | Some d \<Rightarrow>
          (case filterActive (partnerMaster d) of
             Inl e \<Rightarrow> Inl e
           | Inr active \<Rightarrow>
               let activePartners = set (map (\<lambda>p. p ''Partner_ID'') active);
                   cards = filter (\<lambda>c. c ''Partner_ID'' \<in> activePartners) (cardUIConfig d);
                   cards' = filter (segmentFilter d userSegment) cards
               in Inr (engineSort engine (comparePriority d) cards')))"

section \<open>Derived notions used in the statements\<close>

text \<open>
  The table whose header a non-blank row is, as the chain of tests in the loop decides it:
  the four tests in their order, each on the trimmed first cell and on the untrimmed cells.
\<close>

definition headerOf :: "string list \<Rightarrow> table option" where
  "headerOf row =
     (let firstCell = firstCellOf row in
      if firstCell = Some ''Partner_ID'' \<and> ''Partner_Name'' \<in> set row then Some Partner_Master
      else if firstCell = Some ''Config_ID'' \<and> ''Card_Title'' \<in> set row then Some Card_UI_Config
      else if firstCell = Some ''Config_ID'' \<and> ''Hero_Banner_URL'' \<in> set row
        then Some Product_Detail_Config
      else if firstCell = Some ''Rule_ID'' \<and> ''User_Segment'' \<in> set row then Some Display_Rules
      else None)"

text \<open>
  Two states of the scan that no later row can tell apart: the same four arrays, the same
  current table and, unless that is none, the same headers.
\<close>

definition sameScan :: "parser_state \<Rightarrow> parser_state \<Rightarrow> bool" where
  "sameScan st st' \<longleftrightarrow>
     dataOf st = dataOf st' \<and> currentTable st = currentTable st'
     \<and> (currentTable st \<noteq> None \<longrightarrow> currentHeaders st = currentHeaders st')"

text \<open>
  The two things the loop does with a row that is not blank: it starts a table \<open>t\<close>
  (a header row), or it handles the row as a data row of the current table, if any.
\<close>

definition startTable :: "table \<Rightarrow> string list \<Rightarrow> parser_state \<Rightarrow> parser_state" where
  "startTable t row st = st\<lparr>currentTable := Some t, currentHeaders := map trim row\<rparr>"

definition dataRowStep :: "string list \<Rightarrow> parser_state \<Rightarrow> parser_state" where
  "dataRowStep row st =
     (case currentTable st of
        None \<Rightarrow> st
      | Some t \<Rightarrow> pushRecord t (buildRecord (currentHeaders st) row) st)"

text \<open>
  The two lookups \<^verbatim>\<open>find\<close> of the views: the first partner with the card's
  \<open>Partner_ID\<close> and the first rule with the card's \<open>Config_ID\<close>, in the order of the
  tables. A property that is undefined on both sides compares equal, as \<^verbatim>\<open>===\<close> does.
\<close>

definition firstPartner :: "parsed_data \<Rightarrow> obj \<Rightarrow> obj option" where
  "firstPartner d c = find (\<lambda>p. p ''Partner_ID'' = c ''Partner_ID'') (partnerMaster d)"

definition firstRule :: "parsed_data \<Rightarrow> obj \<Rightarrow> obj option" where
  "firstRule d c = find (\<lambda>r. r ''Config_ID'' = c ''Config_ID'') (displayRules d)"

text \<open>
  Every partner record has a \<open>Status\<close>, as the type \<^verbatim>\<open>PartnerMaster\<close> declares. The
  parser gives no such guarantee: a partner header without that column yields records
  without the property.
\<close>

definition typedPartners :: "parsed_data \<Rightarrow> bool" where
  "typedPartners d \<longleftrightarrow> (\<forall>p\<in>set (partnerMaster d). p ''Status'' \<noteq> None)"

text \<open>
  The test of the first filter on one partner, the cards that pass it, and the cards that
  pass both filters, in the order of the card table.
\<close>

definition activeStatus :: "obj \<Rightarrow> bool" where
  "activeStatus p =
     (case p ''Status'' of None \<Rightarrow> False | Some s \<Rightarrow> toUpperCase s = units ''ACTIVE'')"

definition statusGate :: "parsed_data \<Rightarrow> obj \<Rightarrow> bool" where
  "statusGate d c \<longleftrightarrow>
     (\<exists>p\<in>set (partnerMaster d). p ''Partner_ID'' = c ''Partner_ID'' \<and> activeStatus p)"

definition eligibleInOrder :: "parsed_data \<Rightarrow> string \<Rightarrow> obj list" where
  "eligibleInOrder d seg =
     filter (\<lambda>c. statusGate d c \<and> segmentFilter d seg c) (cardUIConfig d)"

text \<open>
  The specification's comparison of two strings without regard to case: position by
  position, the letters A to Z count as their lower-case forms.
\<close>

definition foldCase :: "char \<Rightarrow> nat" where
  "foldCase c = (let n = (of_char c :: nat) in if 65 \<le> n \<and> n \<le> 90 then n + 32 else n)"

definition equalsIgnoreCase :: "string \<Rightarrow> string \<Rightarrow> bool" where
  "equalsIgnoreCase s t \<longleftrightarrow> map foldCase s = map foldCase t"

text \<open>
  Texts that begin, after white space and one sign, with a digit, and the integer such a
  text begins with; texts that are integers (an optional sign, then digits only).
\<close>

definition stripSign :: "string \<Rightarrow> string" where
  "stripSign s = (if s \<noteq> [] \<and> (hd s = CHR ''+'' \<or> hd s = CHR ''-'') then tl s else s)"

definition startsWithInteger :: "string \<Rightarrow> bool" where
  "startsWithInteger s =
     (case stripSign (trimStart s) of [] \<Rightarrow> False | c # _ \<Rightarrow> isDigit c)"

definition leadingInteger :: "string \<Rightarrow> int" where
  "leadingInteger s =
     (if trimStart s \<noteq> [] \<and> hd (trimStart s) = CHR ''-'' then - 1 else 1)
       * decimalValue (takeWhile isDigit (stripSign (trimStart s)))"

definition isIntegerText :: "string \<Rightarrow> bool" where
  "isIntegerText s \<longleftrightarrow> stripSign s \<noteq> [] \<and> list_all isDigit (stripSign s)"

definition integerValue :: "string \<Rightarrow> int" where
  "integerValue s = (if s \<noteq> [] \<and> hd s = CHR ''-'' then - 1 else 1) * decimalValue (stripSign s)"

text \<open>
  The specification's reading of a card's priority: the \<open>Priority\<close> text of the first
  matching rule parsed as an integer, \<open>0\<close> where it is absent or does not parse. The
  order it asks for: no card before one of higher priority.
\<close>

definition specPriority :: "parsed_data \<Rightarrow> obj \<Rightarrow> int" where
  "specPriority d c =
     (let t = orElse (optionalField (firstRule d c) ''Priority'') ''0''
      in if startsWithInteger t then leadingInteger t else 0)"

definition descending :: "parsed_data \<Rightarrow> obj list \<Rightarrow> bool" where
  "descending d cs = sorted_wrt (\<lambda>a b. specPriority d b \<le> specPriority d a) cs"

text \<open>
  The numbers other than NaN in their order, as integers: the infinities lie beyond every
  double.
\<close>

definition doubleRank :: "jsnum \<Rightarrow> int" where
  "doubleRank x =
     (case x of NaN \<Rightarrow> 0 | Num n \<Rightarrow> n | PosInfinity \<Rightarrow> 2 ^ 1024 | NegInfinity \<Rightarrow> - (2 ^ 1024))"

text \<open>
  What the sort reads of a number, and the numbers that are doubles (an integer is one
  only below \<open>2^1024\<close>).
\<close>

definition signValue :: "jsnum \<Rightarrow> int" where
  "signValue x = (case x of NaN \<Rightarrow> 0 | Num v \<Rightarrow> v | PosInfinity \<Rightarrow> 1 | NegInfinity \<Rightarrow> - 1)"

definition isDouble :: "jsnum \<Rightarrow> bool" where
  "isDouble x = (case x of Num n \<Rightarrow> \<bar>n\<bar> < 2 ^ 1024 | _ \<Rightarrow> True)"

text \<open>The key by which the cards are sorted when every priority is a number.\<close>

definition priorityKey :: "parsed_data \<Rightarrow> obj \<Rightarrow> int" where
  "priorityKey d c = - doubleRank (cardPriority d c)"

section \<open>Example grids and tables\<close>

definition hdrCard :: "string list" where
  "hdrCard = [''Config_ID'', ''Card_Title'']"

definition hdrDetail :: "string list" where
  "hdrDetail = [''Config_ID'', ''Hero_Banner_URL'']"

definition hdrBoth :: "string list" where
  "hdrBoth = [''Config_ID'', ''Hero_Banner_URL'', ''Card_Title'']"

definition dataRow :: "string list" where
  "dataRow = [''C1'', ''x'']"

definition hdrPartner :: "string list" where
  "hdrPartner = [''Partner_ID'', ''Partner_Name'', ''Status'']"

definition blankRow :: "string list" where
  "blankRow = [[], ''  '']"

definition orphanRow :: "string list" where
  "orphanRow = [''P1'', ''Acme'', ''ACTIVE'']"

definition exHeaders :: "string list" where
  "exHeaders = [''Config_ID'', ''Card_Title'', [], ''Logo_URL'']"

definition exShortRow :: "string list" where
  "exShortRow = [''C1'', '' Gold '']"

definition exLongRow :: "string list" where
  "exLongRow = [''C1'', '' Gold '', ''a'', ''b'', ''c'']"

definition protoHeaders :: "string list" where
  "protoHeaders = [''Config_ID'', ''Card_Title'', ''__proto__'']"

definition partnerP1 :: obj where
  "partnerP1 =
     [''Partner_ID'' \<mapsto> ''P1'', ''Partner_Name'' \<mapsto> ''Acme Bank'', ''Status'' \<mapsto> ''Active'']"

definition partnerP2 :: obj where
  "partnerP2 =
     [''Partner_ID'' \<mapsto> ''P2'', ''Partner_Name'' \<mapsto> ''Beta'', ''Status'' \<mapsto> ''Inactive'']"

definition partnerNoName :: obj where
  "partnerNoName = [''Partner_ID'' \<mapsto> ''P1'', ''Partner_Name'' \<mapsto> [], ''Status'' \<mapsto> []]"

text \<open>A partner whose status is \<open>active\<close> written with U+0131, the dotless i.\<close>

definition dotlessStatus :: string where
  "dotlessStatus = ''act'' @ [CHR 0xC4, CHR 0xB1] @ ''ve''"

definition partnerDotless :: obj where
  "partnerDotless =
     [''Partner_ID'' \<mapsto> ''P1'', ''Partner_Name'' \<mapsto> ''Acme Bank'', ''Status'' \<mapsto> dotlessStatus]"

definition cardA :: obj where
  "cardA = [''Config_ID'' \<mapsto> ''A'', ''Partner_ID'' \<mapsto> ''P1'']"

definition cardB :: obj where
  "cardB = [''Config_ID'' \<mapsto> ''B'', ''Partner_ID'' \<mapsto> ''P1'']"

definition cardC :: obj where
  "cardC = [''Config_ID'' \<mapsto> ''C'', ''Partner_ID'' \<mapsto> ''P1'']"

definition cardD :: obj where
  "cardD = [''Config_ID'' \<mapsto> ''D'', ''Partner_ID'' \<mapsto> ''P2'']"

definition rule :: "string \<Rightarrow> string \<Rightarrow> string \<Rightarrow> obj" where
  "rule config segment priority =
     [''Rule_ID'' \<mapsto> ''R'' @ config, ''Config_ID'' \<mapsto> config, ''User_Segment'' \<mapsto> segment,
      ''Priority'' \<mapsto> priority]"

text \<open>Three cards of one active partner with the priorities 5, 5 and 10.\<close>

definition stableData :: parsed_data where
  "stableData =
     \<lparr>partnerMaster = [partnerP1], cardUIConfig = [cardA, cardB, cardC], productDetailConfig = [],
      displayRules = [rule ''A'' ''All'' ''5'', rule ''B'' ''All'' ''5'', rule ''C'' ''All'' ''10'']\<rparr>"

text \<open>Two cards, the first with a priority text that is no number.\<close>

definition unparseableData :: parsed_data where
  "unparseableData =
     \<lparr>partnerMaster = [partnerP1], cardUIConfig = [cardA, cardB], productDetailConfig = [],
      displayRules = [rule ''A'' ''All'' ''high'', rule ''B'' ''All'' ''5'']\<rparr>"

text \<open>A partner and a rule that match the card and have empty fields.\<close>

definition noNameData :: parsed_data where
  "noNameData =
     \<lparr>partnerMaster = [partnerNoName], cardUIConfig = [cardA], productDetailConfig = [],
      displayRules = [rule ''A'' [] []]\<rparr>"

text \<open>
  One rule, for card A and the segment \<open>New User\<close>; card B has no rule; card D belongs
  to an inactive partner.
\<close>

definition newUserData :: parsed_data where
  "newUserData =
     \<lparr>partnerMaster = [partnerP1, partnerP2], cardUIConfig = [cardA, cardB, cardD],
      productDetailConfig = [], displayRules = [rule ''A'' ''New User'' ''1'']\<rparr>"

text \<open>One card, of the partner with the dotless status.\<close>

definition dotlessData :: parsed_data where
  "dotlessData =
     \<lparr>partnerMaster = [partnerDotless], cardUIConfig = [cardA], productDetailConfig = [],
      displayRules = []\<rparr>"

text \<open>The sample grid of the specification (section 8, item 9).\<close>

definition partnerHeader :: "string list" where
  "partnerHeader = [''Partner_ID'', ''Partner_Name'', ''Bank_Code'', ''Category'', ''Status'']"

definition partnerLine :: "string list" where
  "partnerLine = [''P1'', ''Acme Bank'', ''ACM'', ''Card'', ''Active'']"

definition cardHeader :: "string list" where
  "cardHeader =
     [''Config_ID'', ''Card_Title'', ''Card_Subtitle'', ''Logo_URL'', ''Badge_Text'', ''Bg_Color'',
      ''Text_Color'', ''Benefit_1'', ''Benefit_2'', ''Benefit_3'', ''CTA_Label_Card'']"

definition cardLine :: "string list" where
  "cardLine =
     [''C1'', ''Acme Gold'', ''Cashback 5%'', [], [], [], [], ''Free shipping'', [], [],
      ''Open now'']"

definition sampleGrid :: "string list list" where
  "sampleGrid = [partnerHeader, partnerLine, [[]], cardHeader, cardLine]"

definition samplePartner :: obj where
  "samplePartner = buildRecord partnerHeader partnerLine"

definition sampleCard :: obj where
  "sampleCard = buildRecord cardHeader cardLine"

definition sampleData :: parsed_data where
  "sampleData =
     \<lparr>partnerMaster = [samplePartner], cardUIConfig = [sampleCard], productDetailConfig = [],
      displayRules = []\<rparr>"

section \<open>The parser: header rows\<close>

lemmas trim_eval = trim_def trimStart_def trimEnd_def leadingCode_def whiteSpaceCodes_def

lemmas row_tests = firstCellOf_def isBlankRow_def headerOf_def trim_eval

lemma trim_Nil [simp]: "trim [] = []"
  by (simp add: trim_def trimStart_def trimEnd_def)

lemma processRow_cases:
  "processRow row st =
     (if isBlankRow row then st\<lparr>currentTable := None\<rparr>
      else case headerOf row of
             Some t \<Rightarrow> st\<lparr>currentTable := Some t, currentHeaders := map trim row\<rparr>
           | None \<Rightarrow> (case currentTable st of
                        None \<Rightarrow> st
                      | Some t \<Rightarrow> pushRecord t (buildRecord (currentHeaders st) row) st))"
  by (simp add: processRow_def headerOf_def Let_def)

lemma firstCell_not_blank: "firstCellOf row = Some k \<Longrightarrow> k \<noteq> [] \<Longrightarrow> \<not> isBlankRow row"
  by (auto simp: firstCellOf_def isBlankRow_def split: list.splits)

lemma headerOf_not_blank: "headerOf row = Some t \<Longrightarrow> \<not> isBlankRow row"
proof -
  assume h: "headerOf row = Some t"
  then obtain k where "firstCellOf row = Some k" and "k \<noteq> []"
    by (auto simp: headerOf_def Let_def split: if_splits)
  then show ?thesis by (rule firstCell_not_blank)
qed

lemma headerOf_Config:
  "firstCellOf row = Some ''Config_ID'' \<Longrightarrow>
   headerOf row = (if ''Card_Title'' \<in> set row then Some Card_UI_Config
                   else if ''Hero_Banner_URL'' \<in> set row then Some Product_Detail_Config
                   else None)"
  by (simp add: headerOf_def)

lemma scanRows_Cons: "scanRows (r # rs) st = scanRows rs (processRow r st)"
  by (simp add: scanRows_def)

lemma scanRows_Nil: "scanRows [] st = st"
  by (simp add: scanRows_def)

lemma scanRows_append: "scanRows (xs @ ys) st = scanRows ys (scanRows xs st)"
  by (simp add: scanRows_def)

text \<open>
  Claim C6. A row whose first cell trims to \<open>Config_ID\<close> and which contains
  \<open>Card_Title\<close> switches the current table to \<open>Card_UI_Config\<close> (never to
  \<open>Product_Detail_Config\<close>), also when it contains \<open>Hero_Banner_URL\<close> as well; with
  \<open>Hero_Banner_URL\<close> and no \<open>Card_Title\<close> it switches to \<open>Product_Detail_Config\<close>.
  The data row that follows goes to that table and leaves the other one as it was. The
  state \<open>st\<close> is arbitrary, so this holds after any rows scanned before.
\<close>

theorem config_header_routing:
  assumes "firstCellOf row = Some ''Config_ID''"
    and "\<not> isBlankRow r" and "headerOf r = None"
  shows "(''Card_Title'' \<in> set row \<longrightarrow>
            processRow row st =
              st\<lparr>currentTable := Some Card_UI_Config, currentHeaders := map trim row\<rparr>
          \<and> cardUIConfig (scanRows [row, r] st) = cardUIConfig st @ [buildRecord (map trim row) r]
          \<and> productDetailConfig (scanRows [row, r] st) = productDetailConfig st)
       \<and> (''Card_Title'' \<notin> set row \<and> ''Hero_Banner_URL'' \<in> set row \<longrightarrow>
            processRow row st =
              st\<lparr>currentTable := Some Product_Detail_Config, currentHeaders := map trim row\<rparr>
          \<and> productDetailConfig (scanRows [row, r] st) =
              productDetailConfig st @ [buildRecord (map trim row) r]
          \<and> cardUIConfig (scanRows [row, r] st) = cardUIConfig st)"
proof -
  have nb: "\<not> isBlankRow row" using assms(1) by (rule firstCell_not_blank) simp
  show ?thesis
    using nb assms
    by (simp add: scanRows_Cons scanRows_Nil processRow_cases headerOf_Config pushRecord_def)
qed

text \<open>
  The two headers back to back in one grid, and a header with both signature names.
\<close>

theorem config_header_routing_witness:
  "firstCellOf hdrCard = Some ''Config_ID'' \<and> firstCellOf hdrDetail = Some ''Config_ID''
   \<and> firstCellOf hdrBoth = Some ''Config_ID''
   \<and> \<not> isBlankRow dataRow \<and> headerOf dataRow = None
   \<and> cardUIConfig (scanRows [hdrCard, dataRow, hdrDetail, dataRow] initialState)
        = [buildRecord (map trim hdrCard) dataRow]
   \<and> productDetailConfig (scanRows [hdrCard, dataRow, hdrDetail, dataRow] initialState)
        = [buildRecord (map trim hdrDetail) dataRow]
   \<and> currentTable (processRow hdrBoth initialState) = Some Card_UI_Config"
proof -
  have a: "firstCellOf hdrCard = Some ''Config_ID''" by (simp add: row_tests hdrCard_def)
  have b: "firstCellOf hdrDetail = Some ''Config_ID''" by (simp add: row_tests hdrDetail_def)
  have c: "firstCellOf hdrBoth = Some ''Config_ID''" by (simp add: row_tests hdrBoth_def)
  have d: "\<not> isBlankRow dataRow" by (simp add: row_tests dataRow_def)
  have e: "headerOf dataRow = None" by (simp add: row_tests dataRow_def)
  have m1: "''Card_Title'' \<in> set hdrCard" by (simp add: hdrCard_def)
  have m2: "''Card_Title'' \<notin> set hdrDetail \<and> ''Hero_Banner_URL'' \<in> set hdrDetail"
    by (simp add: hdrDetail_def)
  have m3: "''Card_Title'' \<in> set hdrBoth" by (simp add: hdrBoth_def)
  let ?st = "scanRows [hdrCard, dataRow] initialState"
  have s1: "cardUIConfig ?st = [buildRecord (map trim hdrCard) dataRow]
            \<and> productDetailConfig ?st = []"
    using config_header_routing [OF a d e, of initialState] m1 by (simp add: initialState_def)
  have s2: "productDetailConfig (scanRows [hdrDetail, dataRow] ?st)
              = [buildRecord (map trim hdrDetail) dataRow]
            \<and> cardUIConfig (scanRows [hdrDetail, dataRow] ?st) = cardUIConfig ?st"
    using config_header_routing [OF b d e, of ?st] m2 s1 by simp
  have s3: "currentTable (processRow hdrBoth initialState) = Some Card_UI_Config"
    using config_header_routing [OF c d e, of initialState] m3 by simp
  have app: "scanRows [hdrCard, dataRow, hdrDetail, dataRow] initialState
             = scanRows [hdrDetail, dataRow] ?st"
    by (simp add: scanRows_def)
  show ?thesis using a b c d e s1 s2 s3 app by simp
qed

lemma firstCellOf_Cons: "firstCellOf (c # cs) = Some (trim c)"
  by (simp add: firstCellOf_def)

lemma startTable_not_dataRowStep: "startTable t row st \<noteq> dataRowStep row st"
proof (cases "currentTable st")
  case None
  then have "currentTable (dataRowStep row st) = None" by (simp add: dataRowStep_def)
  moreover have "currentTable (startTable t row st) = Some t" by (simp add: startTable_def)
  ultimately show ?thesis by auto
next
  case (Some u)
  have "dataOf (dataRowStep row st) \<noteq> dataOf st"
    using Some by (cases u) (simp_all add: dataRowStep_def pushRecord_def dataOf_def)
  moreover have "dataOf (startTable t row st) = dataOf st"
    by (simp add: startTable_def dataOf_def)
  ultimately show ?thesis by auto
qed

text \<open>
  Claim C10. Header detection trims the key cell and not the signature cells, in each of
  the four tests. For a row whose first cell trims to a key column name (with any white
  space around it), the row starts the table exactly when one of its cells is the
  signature name itself: a cell that only trims to the signature name does not count, and
  the row is then handled as a data row (which is never the same step as starting a
  table, lemma \<open>startTable_not_dataRowStep\<close>). A row whose first cell trims to no key
  column name starts no table.
\<close>

theorem signature_cell_not_trimmed:
  assumes "trim c = key"
  shows "(key = ''Partner_ID'' \<longrightarrow>
            processRow (c # cs) st =
              (if ''Partner_Name'' \<in> set (c # cs) then startTable Partner_Master (c # cs) st
               else dataRowStep (c # cs) st))
       \<and> (key = ''Config_ID'' \<longrightarrow>
            processRow (c # cs) st =
              (if ''Card_Title'' \<in> set (c # cs) then startTable Card_UI_Config (c # cs) st
               else if ''Hero_Banner_URL'' \<in> set (c # cs)
                 then startTable Product_Detail_Config (c # cs) st
               else dataRowStep (c # cs) st))
       \<and> (key = ''Rule_ID'' \<longrightarrow>
            processRow (c # cs) st =
              (if ''User_Segment'' \<in> set (c # cs) then startTable Display_Rules (c # cs) st
               else dataRowStep (c # cs) st))
       \<and> (key \<notin> {''Partner_ID'', ''Config_ID'', ''Rule_ID''} \<longrightarrow>
            processRow (c # cs) st =
              (if isBlankRow (c # cs) then st\<lparr>currentTable := None\<rparr>
               else dataRowStep (c # cs) st))"
proof -
  have fc: "firstCellOf (c # cs) = Some key" using assms by (simp add: firstCellOf_Cons)
  have nb: "\<not> isBlankRow (c # cs)" if "key \<noteq> []"
    using fc that by (rule firstCell_not_blank)
  have p: "processRow (c # cs) st =
              (if ''Partner_Name'' \<in> set (c # cs) then startTable Partner_Master (c # cs) st
               else dataRowStep (c # cs) st)" if "key = ''Partner_ID''"
    using that nb fc by (simp add: processRow_cases headerOf_def startTable_def dataRowStep_def)
  have g: "processRow (c # cs) st =
              (if ''Card_Title'' \<in> set (c # cs) then startTable Card_UI_Config (c # cs) st
               else if ''Hero_Banner_URL'' \<in> set (c # cs)
                 then startTable Product_Detail_Config (c # cs) st
               else dataRowStep (c # cs) st)" if "key = ''Config_ID''"
    using that nb fc by (simp add: processRow_cases headerOf_def startTable_def dataRowStep_def)
  have r: "processRow (c # cs) st =
              (if ''User_Segment'' \<in> set (c # cs) then startTable Display_Rules (c # cs) st
               else dataRowStep (c # cs) st)" if "key = ''Rule_ID''"
    using that nb fc by (simp add: processRow_cases headerOf_def startTable_def dataRowStep_def)
  have o: "processRow (c # cs) st =
              (if isBlankRow (c # cs) then st\<lparr>currentTable := None\<rparr>
               else dataRowStep (c # cs) st)"
    if "key \<notin> {''Partner_ID'', ''Config_ID'', ''Rule_ID''}"
    using that fc by (simp add: processRow_cases headerOf_def dataRowStep_def)
  show ?thesis using p g r o by blast
qed

text \<open>
  For each of the four tables: the header with white space around the key cell starts the
  table; the header with white space around the signature cell does not, and after a
  partner header it is recorded as a partner.
\<close>

theorem signature_cell_not_trimmed_witness:
  "currentTable (processRow ['' Partner_ID '', ''Partner_Name''] initialState) = Some Partner_Master
   \<and> currentTable (processRow [''Partner_ID'', '' Partner_Name ''] initialState) = None
   \<and> currentTable (processRow ['' Config_ID '', ''Card_Title''] initialState) = Some Card_UI_Config
   \<and> currentTable (processRow [''Config_ID'', '' Card_Title ''] initialState) = None
   \<and> currentTable (processRow ['' Config_ID '', ''Hero_Banner_URL''] initialState)
        = Some Product_Detail_Config
   \<and> currentTable (processRow [''Config_ID'', '' Hero_Banner_URL ''] initialState) = None
   \<and> currentTable (processRow ['' Rule_ID '', ''User_Segment''] initialState) = Some Display_Rules
   \<and> currentTable (processRow [''Rule_ID'', '' User_Segment ''] initialState) = None
   \<and> partnerMaster (processRow [''Config_ID'', '' Card_Title ''] (processRow hdrPartner initialState))
        = [buildRecord hdrPartner [''Config_ID'', '' Card_Title '']]"
proof -
  have t: "trim '' Partner_ID '' = ''Partner_ID''" "trim ''Partner_ID'' = ''Partner_ID''"
    "trim '' Config_ID '' = ''Config_ID''" "trim ''Config_ID'' = ''Config_ID''"
    "trim '' Rule_ID '' = ''Rule_ID''" "trim ''Rule_ID'' = ''Rule_ID''"
    by (simp_all add: trim_eval)
  have h: "processRow hdrPartner initialState = startTable Partner_Master hdrPartner initialState"
    "map trim hdrPartner = hdrPartner"
    using signature_cell_not_trimmed [OF t(2), of "[''Partner_Name'', ''Status'']" initialState]
    by (simp_all add: hdrPartner_def trim_eval)
  note s = signature_cell_not_trimmed
  have a: "currentTable (processRow ['' Partner_ID '', ''Partner_Name''] initialState)
             = Some Partner_Master"
    "currentTable (processRow [''Partner_ID'', '' Partner_Name ''] initialState) = None"
    using s [OF t(1), of "[''Partner_Name'']" initialState]
      s [OF t(2), of "['' Partner_Name '']" initialState]
    by (simp_all add: startTable_def dataRowStep_def initialState_def)
  have b: "currentTable (processRow ['' Config_ID '', ''Card_Title''] initialState)
             = Some Card_UI_Config"
    "currentTable (processRow [''Config_ID'', '' Card_Title ''] initialState) = None"
    "currentTable (processRow ['' Config_ID '', ''Hero_Banner_URL''] initialState)
        = Some Product_Detail_Config"
    "currentTable (processRow [''Config_ID'', '' Hero_Banner_URL ''] initialState) = None"
    using s [OF t(3), of "[''Card_Title'']" initialState]
      s [OF t(4), of "['' Card_Title '']" initialState]
      s [OF t(3), of "[''Hero_Banner_URL'']" initialState]
      s [OF t(4), of "['' Hero_Banner_URL '']" initialState]
    by (simp_all add: startTable_def dataRowStep_def initialState_def)
  have c: "currentTable (processRow ['' Rule_ID '', ''User_Segment''] initialState)
             = Some Display_Rules"
    "currentTable (processRow [''Rule_ID'', '' User_Segment ''] initialState) = None"
    using s [OF t(5), of "[''User_Segment'']" initialState]
      s [OF t(6), of "['' User_Segment '']" initialState]
    by (simp_all add: startTable_def dataRowStep_def initialState_def)
  have "processRow [''Config_ID'', '' Card_Title '']
          (startTable Partner_Master hdrPartner initialState)
        = dataRowStep [''Config_ID'', '' Card_Title '']
            (startTable Partner_Master hdrPartner initialState)"
    using s [OF t(4), of "['' Card_Title '']" "startTable Partner_Master hdrPartner initialState"]
    by simp
  then have d: "partnerMaster (processRow [''Config_ID'', '' Card_Title '']
                  (processRow hdrPartner initialState))
                = [buildRecord hdrPartner [''Config_ID'', '' Card_Title '']]"
    unfolding h(1)
    by (simp add: h(2) startTable_def dataRowStep_def pushRecord_def initialState_def)
  show ?thesis using a b c d by simp
qed

section \<open>The parser: blank rows and orphan rows\<close>

lemma dataOf_simps:
  "dataOf (st\<lparr>currentTable := t\<rparr>) = dataOf st"
  "dataOf (st\<lparr>currentHeaders := h\<rparr>) = dataOf st"
  by (simp_all add: dataOf_def)

lemma dataOf_eq_iff:
  "dataOf st = dataOf st' \<longleftrightarrow>
     partnerMaster st = partnerMaster st' \<and> cardUIConfig st = cardUIConfig st'
     \<and> productDetailConfig st = productDetailConfig st' \<and> displayRules st = displayRules st'"
  by (auto simp: dataOf_def)

lemma sameScan_processRow:
  "sameScan st st' \<Longrightarrow> sameScan (processRow row st) (processRow row st')"
  by (auto simp: sameScan_def processRow_cases dataOf_eq_iff pushRecord_def
      split: option.splits table.splits)

lemma sameScan_scanRows:
  "sameScan st st' \<Longrightarrow> sameScan (scanRows rows st) (scanRows rows st')"
proof (induction rows arbitrary: st st')
  case Nil
  then show ?case by (simp add: scanRows_Nil)
next
  case (Cons r rs)
  from Cons.prems have "sameScan (processRow r st) (processRow r st')"
    by (rule sameScan_processRow)
  then show ?case by (simp add: scanRows_Cons Cons.IH)
qed

lemma scan_no_header:
  "currentTable st = None \<Longrightarrow> \<forall>r\<in>set rows. headerOf r = None \<Longrightarrow>
   dataOf (scanRows rows st) = dataOf st \<and> currentTable (scanRows rows st) = None"
proof (induction rows arbitrary: st)
  case Nil
  then show ?case by (simp add: scanRows_Nil)
next
  case (Cons r rs)
  have "currentTable (processRow r st) = None \<and> dataOf (processRow r st) = dataOf st"
    using Cons.prems by (simp add: processRow_cases dataOf_simps)
  with Cons.IH [of "processRow r st"] Cons.prems show ?case
    by (simp add: scanRows_Cons)
qed

text \<open>
  Claim C7. A blank row sets the current table to none and changes nothing else. A
  non-blank row that is no header, scanned while the current table is none, leaves the
  whole state as it was: no table receives a record. A header row followed at once by a
  blank row therefore contributes nothing: the four tables at the end of the scan are
  those of the grid without that header row, and when no later row is a header they are
  the tables as they were before the header.
\<close>

theorem blank_row_resets_table:
  assumes "isBlankRow blank" and "headerOf hdr = Some T"
  shows "processRow blank st = st\<lparr>currentTable := None\<rparr>
       \<and> (\<forall>row. currentTable st = None \<and> \<not> isBlankRow row \<and> headerOf row = None
              \<longrightarrow> processRow row st = st)
       \<and> dataOf (scanRows (hdr # blank # rest) st) = dataOf (scanRows (blank # rest) st)
       \<and> ((\<forall>r\<in>set rest. headerOf r = None)
              \<longrightarrow> dataOf (scanRows (hdr # blank # rest) st) = dataOf st)"
proof -
  have blank_step: "processRow blank s = s\<lparr>currentTable := None\<rparr>" for s
    using assms(1) by (simp add: processRow_cases)
  have hdr_step:
    "processRow hdr st = st\<lparr>currentTable := Some T, currentHeaders := map trim hdr\<rparr>"
    using assms(2) headerOf_not_blank [OF assms(2)] by (simp add: processRow_cases)
  have "sameScan (processRow blank (processRow hdr st)) (processRow blank st)"
    by (simp add: blank_step hdr_step sameScan_def dataOf_simps)
  then have "sameScan (scanRows rest (processRow blank (processRow hdr st)))
                      (scanRows rest (processRow blank st))"
    by (rule sameScan_scanRows)
  then have eq: "dataOf (scanRows (hdr # blank # rest) st) = dataOf (scanRows (blank # rest) st)"
    by (simp add: scanRows_Cons sameScan_def)
  have drop: "processRow row st = st"
    if "currentTable st = None" "\<not> isBlankRow row" "headerOf row = None" for row
    using that by (simp add: processRow_cases)
  have none: "dataOf (scanRows (blank # rest) st) = dataOf st"
    if "\<forall>r\<in>set rest. headerOf r = None"
    using scan_no_header [of "processRow blank st" rest] that
    by (simp add: scanRows_Cons blank_step dataOf_simps)
  show ?thesis using blank_step eq drop none by simp
qed

text \<open>
  A partner header, a blank row, then a row of data: no partner is recorded. Without the
  blank row the same data row is recorded.
\<close>

theorem blank_row_resets_table_witness:
  "isBlankRow blankRow \<and> headerOf hdrPartner = Some Partner_Master
   \<and> currentTable (processRow blankRow (processRow hdrPartner initialState)) = None
   \<and> processRow orphanRow initialState = initialState
   \<and> partnerMaster (parseGrid [hdrPartner, blankRow, orphanRow]) = []
   \<and> partnerMaster (parseGrid [hdrPartner, orphanRow]) = [buildRecord hdrPartner orphanRow]"
proof -
  have a: "isBlankRow blankRow" by (simp add: row_tests blankRow_def)
  have b: "headerOf hdrPartner = Some Partner_Master" by (simp add: row_tests hdrPartner_def)
  have c: "\<not> isBlankRow orphanRow" "headerOf orphanRow = None"
    by (simp_all add: row_tests orphanRow_def)
  have d: "currentTable initialState = None" by (simp add: initialState_def)
  have e: "partnerMaster (parseGrid [hdrPartner, orphanRow]) = [buildRecord hdrPartner orphanRow]"
    using b c headerOf_not_blank [OF b]
    by (simp add: parseGrid_def scanRows_def processRow_cases dataOf_def pushRecord_def
        initialState_def hdrPartner_def trim_eval)
  note t1 = blank_row_resets_table [OF a b, of "processRow hdrPartner initialState" "[]"]
  note t2 = blank_row_resets_table [OF a b, of initialState "[orphanRow]"]
  have s1: "currentTable (processRow blankRow (processRow hdrPartner initialState)) = None"
    using t1 by simp
  have s2: "processRow orphanRow initialState = initialState"
    using t2 c d by blast
  have "\<forall>r\<in>set [orphanRow]. headerOf r = None" using c by simp
  with t2 have "dataOf (scanRows [hdrPartner, blankRow, orphanRow] initialState)
                = dataOf initialState"
    by blast
  then have s3: "partnerMaster (parseGrid [hdrPartner, blankRow, orphanRow]) = []"
    by (simp add: parseGrid_def) (simp add: dataOf_def initialState_def)
  show ?thesis using a b s1 s2 s3 e by simp
qed

section \<open>The parser: records from headers and cells\<close>

lemma forEachHeader_other:
  "k \<notin> set hs \<or> k = [] \<or> k = ''__proto__'' \<Longrightarrow> forEachHeader hs n row ob k = ob k"
  by (induction hs arbitrary: n ob) (auto simp: setProperty_def)

lemma forEachHeader_last:
  "k \<noteq> [] \<Longrightarrow> k \<noteq> ''__proto__'' \<Longrightarrow> k \<in> set hs \<Longrightarrow>
   \<exists>j<length hs. hs ! j = k \<and> forEachHeader hs n row ob k = Some (cellValue row (n + j))
      \<and> (\<forall>i<length hs. hs ! i = k \<longrightarrow> i \<le> j)"
proof (induction hs arbitrary: n ob)
  case Nil
  then show ?case by simp
next
  case (Cons h hs)
  show ?case
  proof (cases "k \<in> set hs")
    case True
    let ?ob = "if h \<noteq> [] then setProperty ob h (cellValue row n) else ob"
    from Cons.IH [OF Cons.prems(1,2) True, of "Suc n" ?ob]
    obtain j where j: "j < length hs" "hs ! j = k"
      "forEachHeader hs (Suc n) row ?ob k = Some (cellValue row (Suc n + j))"
      "\<forall>i<length hs. hs ! i = k \<longrightarrow> i \<le> j"
      by blast
    have "\<forall>i<length (h # hs). (h # hs) ! i = k \<longrightarrow> i \<le> Suc j"
    proof (intro allI impI)
      fix i assume "i < length (h # hs)" "(h # hs) ! i = k"
      then show "i \<le> Suc j" using j(4) by (cases i) auto
    qed
    with j show ?thesis
      by (intro exI [of _ "Suc j"]) simp
  next
    case False
    with Cons.prems have hk: "h = k" by simp
    have "forEachHeader (h # hs) n row ob k = Some (cellValue row n)"
      using False hk Cons.prems(1,2) by (simp add: forEachHeader_other setProperty_def)
    moreover have "\<forall>i<length (h # hs). (h # hs) ! i = k \<longrightarrow> i \<le> 0"
    proof (intro allI impI)
      fix i assume "i < length (h # hs)" "(h # hs) ! i = k"
      then show "i \<le> 0" using False by (cases i) auto
    qed
    ultimately show ?thesis using hk by (intro exI [of _ 0]) simp
  qed
qed

lemma cellValue_take: "i < m \<Longrightarrow> cellValue (take m row) i = cellValue row i"
  by (simp add: cellValue_def)

lemma forEachHeader_take:
  "forEachHeader hs n (take (n + length hs) row) ob = forEachHeader hs n row ob"
proof (induction hs arbitrary: n ob)
  case Nil
  then show ?case by simp
next
  case (Cons h hs)
  have "cellValue (take (n + length (h # hs)) row) n = cellValue row n"
    by (rule cellValue_take) simp
  moreover have "take (n + length (h # hs)) row = take (Suc n + length hs) row" by simp
  ultimately show ?case using Cons.IH [of "Suc n"] by simp
qed

lemma buildRecord_dom: "dom (buildRecord hs row) \<subseteq> set hs"
proof
  fix k assume "k \<in> dom (buildRecord hs row)"
  then have "buildRecord hs row k \<noteq> None" by auto
  show "k \<in> set hs"
  proof (rule ccontr)
    assume "k \<notin> set hs"
    then have "forEachHeader hs 0 row Map.empty k = None"
      by (simp add: forEachHeader_other)
    with \<open>buildRecord hs row k \<noteq> None\<close> show False by (simp add: buildRecord_def)
  qed
qed

lemma later_occurrence:
  "i < j \<Longrightarrow> j < length hs \<Longrightarrow> hs ! j \<in> set (drop (Suc i) hs)"
proof -
  assume "i < j" "j < length hs"
  then have "drop (Suc i) hs ! (j - Suc i) = hs ! j" "j - Suc i < length (drop (Suc i) hs)"
    by simp_all
  then show ?thesis by (metis nth_mem)
qed

text \<open>
  What the record of a data row holds. It pairs the header at position \<open>i\<close> with the
  cell at position \<open>i\<close>: for a header name that is neither empty nor \<open>__proto__\<close>,
  the field holds the trimmed cell (the empty string when the row ends before \<open>i\<close>),
  where of several positions with one name the last one gives the value. A row shorter
  than the headers gives the empty string for each such field beyond its end. The empty
  header gives no field. Cells beyond the headers are ignored, the record has no field but
  header names, and every value is the empty string or a trimmed cell of the row.
\<close>

lemma record_of_data_row:
  assumes "i < length headers" and "headers ! i \<noteq> []" and "headers ! i \<noteq> ''__proto__''"
  shows "(headers ! i \<notin> set (drop (Suc i) headers) \<longrightarrow>
            buildRecord headers row (headers ! i)
              = Some (if i < length row then trim (row ! i) else []))
       \<and> (length row \<le> i \<longrightarrow> buildRecord headers row (headers ! i) = Some [])
       \<and> buildRecord headers row [] = None
       \<and> buildRecord headers row ''__proto__'' = None
       \<and> buildRecord headers (take (length headers) row) = buildRecord headers row
       \<and> dom (buildRecord headers row) \<subseteq> set headers
       \<and> (\<forall>k v. buildRecord headers row k = Some v \<longrightarrow>
            v = [] \<or> (\<exists>n<length row. v = trim (row ! n)))"
proof -
  have last: "\<exists>j<length headers. headers ! j = k
        \<and> buildRecord headers row k = Some (cellValue row j)
        \<and> (\<forall>n<length headers. headers ! n = k \<longrightarrow> n \<le> j)"
    if "k \<noteq> []" "k \<noteq> ''__proto__''" "k \<in> set headers" for k
    using forEachHeader_last [OF that, of 0 row Map.empty] by (simp add: buildRecord_def)
  from last [OF assms(2,3)] assms(1) obtain j where j: "j < length headers"
      "headers ! j = headers ! i" "buildRecord headers row (headers ! i) = Some (cellValue row j)"
      "\<forall>n<length headers. headers ! n = headers ! i \<longrightarrow> n \<le> j"
    by auto
  from j(4) assms(1) have ij: "i \<le> j" by simp
  have a: "buildRecord headers row (headers ! i)
             = Some (if i < length row then trim (row ! i) else [])"
    if "headers ! i \<notin> set (drop (Suc i) headers)"
  proof -
    have "\<not> i < j" using that j(1,2) later_occurrence [of i j headers] by auto
    with ij have "j = i" by simp
    with j(3) show ?thesis by (auto simp: cellValue_def)
  qed
  have b: "buildRecord headers row (headers ! i) = Some []" if "length row \<le> i"
    using that ij j(3) by (simp add: cellValue_def)
  have c: "buildRecord headers row [] = None" "buildRecord headers row ''__proto__'' = None"
    by (simp_all add: buildRecord_def forEachHeader_other)
  have d: "buildRecord headers (take (length headers) row) = buildRecord headers row"
    using forEachHeader_take [of headers 0 row Map.empty] by (simp add: buildRecord_def)
  have e: "v = [] \<or> (\<exists>n<length row. v = trim (row ! n))"
    if "buildRecord headers row k = Some v" for k v
  proof -
    have "k \<noteq> []" "k \<noteq> ''__proto__''" using that c by auto
    moreover have "k \<in> set headers" using that buildRecord_dom [of headers row] by auto
    ultimately obtain m where "buildRecord headers row k = Some (cellValue row m)"
      using last by blast
    with that have v: "v = cellValue row m" by simp
    show ?thesis
    proof (cases "m < length row \<and> row ! m \<noteq> []")
      case True
      with v have "m < length row" "v = trim (row ! m)" by (simp_all add: cellValue_def)
      then show ?thesis by blast
    next
      case False
      with v show ?thesis by (simp add: cellValue_def)
    qed
  qed
  show ?thesis using a b c d e buildRecord_dom [of headers row] by blast
qed

text \<open>
  Claim C8 at a header named \<open>__proto__\<close>. The claim asks for a field, holding the
  empty string, for every header that the row ends before. With the headers
  \<open>Config_ID\<close>, \<open>Card_Title\<close>, \<open>__proto__\<close> and the row \<open>C1\<close>, the loop
  runs \<^verbatim>\<open>obj[header] = ''\<close> for both missing cells: the field \<open>Card_Title\<close> is
  the empty string, and for \<open>__proto__\<close> nothing is stored.
\<close>

theorem proto_header_stores_no_field:
  "buildRecord protoHeaders [''C1''] ''Card_Title'' = Some []
   \<and> buildRecord protoHeaders [''C1''] ''__proto__'' = None"
  by (simp add: protoHeaders_def buildRecord_def setProperty_def cellValue_def)

text \<open>
  A row shorter than its headers and a row longer than them, with an empty header between.
\<close>

lemma record_of_data_row_example:
  "(1::nat) < length exHeaders \<and> exHeaders ! 1 \<noteq> [] \<and> exHeaders ! 1 \<noteq> ''__proto__''
   \<and> exHeaders ! 1 \<notin> set (drop (Suc 1) exHeaders)
   \<and> buildRecord exHeaders exShortRow ''Card_Title'' = Some ''Gold''
   \<and> buildRecord exHeaders exShortRow ''Logo_URL'' = Some []
   \<and> buildRecord exHeaders exShortRow [] = None
   \<and> buildRecord exHeaders (take 4 exLongRow) = buildRecord exHeaders exLongRow"
proof -
  have len: "length exHeaders = 4" by (simp add: exHeaders_def)
  have a: "(1::nat) < length exHeaders" "exHeaders ! 1 \<noteq> []" "exHeaders ! 1 \<noteq> ''__proto__''"
    by (simp_all add: exHeaders_def)
  have b: "(3::nat) < length exHeaders" "exHeaders ! 3 \<noteq> []" "exHeaders ! 3 \<noteq> ''__proto__''"
    by (simp_all add: exHeaders_def)
  have c: "exHeaders ! 1 \<notin> set (drop (Suc 1) exHeaders)" by (simp add: exHeaders_def)
  have t: "trim '' Gold '' = ''Gold''" by (simp add: trim_eval)
  have s1: "buildRecord exHeaders exShortRow ''Card_Title'' = Some ''Gold''"
    using record_of_data_row [OF a, of exShortRow] c t by (simp add: exHeaders_def exShortRow_def)
  have s2: "buildRecord exHeaders exShortRow ''Logo_URL'' = Some []"
    using record_of_data_row [OF b, of exShortRow] by (simp add: exHeaders_def exShortRow_def)
  have s3: "buildRecord exHeaders exShortRow [] = None"
    using record_of_data_row [OF a, of exShortRow] by blast
  have s4: "buildRecord exHeaders (take 4 exLongRow) = buildRecord exHeaders exLongRow"
    using record_of_data_row [OF a, of exLongRow] unfolding len by blast
  show ?thesis using a c s1 s2 s3 s4 by simp
qed

section \<open>The dashboard rows\<close>

lemmas ex_defs = partnerP1_def partnerP2_def cardA_def cardB_def cardC_def cardD_def rule_def
  partnerDotless_def dotlessStatus_def

lemma find_first_match:
  "xs = pre @ x # post \<Longrightarrow> \<forall>y\<in>set pre. \<not> P y \<Longrightarrow> P x \<Longrightarrow> find P xs = Some x"
  by (induction pre arbitrary: xs) auto

lemma firstPartner_None:
  "\<forall>p\<in>set (partnerMaster d). p ''Partner_ID'' \<noteq> c ''Partner_ID'' \<Longrightarrow> firstPartner d c = None"
  by (simp add: firstPartner_def find_None_iff)

lemma firstPartner_Some:
  "partnerMaster d = pre @ p # post \<Longrightarrow>
   \<forall>q\<in>set pre. q ''Partner_ID'' \<noteq> c ''Partner_ID'' \<Longrightarrow> p ''Partner_ID'' = c ''Partner_ID'' \<Longrightarrow>
   firstPartner d c = Some p"
  unfolding firstPartner_def by (rule find_first_match) auto

lemma firstRule_None:
  "\<forall>r\<in>set (displayRules d). r ''Config_ID'' \<noteq> c ''Config_ID'' \<Longrightarrow> firstRule d c = None"
  by (simp add: firstRule_def find_None_iff)

lemma firstRule_Some:
  "displayRules d = pre @ r # post \<Longrightarrow>
   \<forall>q\<in>set pre. q ''Config_ID'' \<noteq> c ''Config_ID'' \<Longrightarrow> r ''Config_ID'' = c ''Config_ID'' \<Longrightarrow>
   firstRule d c = Some r"
  unfolding firstRule_def by (rule find_first_match) auto

lemma dashboardRow_joined:
  "dashboardRow d config ''Partner_Name''
     = Some (orElse (optionalField (firstPartner d config) ''Partner_Name'') ''Unknown'')"
  "dashboardRow d config ''Status''
     = Some (orElse (optionalField (firstPartner d config) ''Status'') ''INACTIVE'')"
  "dashboardRow d config ''Priority''
     = Some (orElse (optionalField (firstRule d config) ''Priority'') ''0'')"
  "dashboardRow d config ''User_Segment''
     = Some (orElse (optionalField (firstRule d config) ''User_Segment'') ''All'')"
  by (simp_all add: dashboardRow_def Let_def firstPartner_def firstRule_def)

lemma dashboardRow_own_field:
  "k \<notin> {''Partner_Name'', ''Status'', ''Priority'', ''User_Segment''} \<Longrightarrow>
   dashboardRow d config k = config k"
  by (simp add: dashboardRow_def Let_def)

text \<open>
  Claim C9. In a dashboard row the fallback values stand not only where the lookup finds
  no partner or no rule, but also where the first match has the empty string in the field:
  an empty \<open>Partner_Name\<close> gives \<open>Unknown\<close>, an empty \<open>Status\<close> gives
  \<open>INACTIVE\<close>, an empty \<open>Priority\<close> gives \<open>0\<close> and an empty \<open>User_Segment\<close> gives
  \<open>All\<close>.
\<close>

theorem dashboard_empty_field_fallback:
  "(partnerMaster d = pre @ p # post
      \<and> (\<forall>q\<in>set pre. q ''Partner_ID'' \<noteq> config ''Partner_ID'')
      \<and> p ''Partner_ID'' = config ''Partner_ID'' \<longrightarrow>
        (p ''Partner_Name'' = Some [] \<longrightarrow> dashboardRow d config ''Partner_Name'' = Some ''Unknown'')
      \<and> (p ''Status'' = Some [] \<longrightarrow> dashboardRow d config ''Status'' = Some ''INACTIVE''))
   \<and> (displayRules d = pre' @ r # post'
      \<and> (\<forall>q\<in>set pre'. q ''Config_ID'' \<noteq> config ''Config_ID'')
      \<and> r ''Config_ID'' = config ''Config_ID'' \<longrightarrow>
        (r ''Priority'' = Some [] \<longrightarrow> dashboardRow d config ''Priority'' = Some ''0'')
      \<and> (r ''User_Segment'' = Some [] \<longrightarrow> dashboardRow d config ''User_Segment'' = Some ''All''))
   \<and> ((\<forall>q\<in>set (partnerMaster d). q ''Partner_ID'' \<noteq> config ''Partner_ID'') \<longrightarrow>
        dashboardRow d config ''Partner_Name'' = Some ''Unknown''
      \<and> dashboardRow d config ''Status'' = Some ''INACTIVE'')
   \<and> ((\<forall>q\<in>set (displayRules d). q ''Config_ID'' \<noteq> config ''Config_ID'') \<longrightarrow>
        dashboardRow d config ''Priority'' = Some ''0''
      \<and> dashboardRow d config ''User_Segment'' = Some ''All'')"
proof (intro conjI impI)
  assume a: "partnerMaster d = pre @ p # post
      \<and> (\<forall>q\<in>set pre. q ''Partner_ID'' \<noteq> config ''Partner_ID'')
      \<and> p ''Partner_ID'' = config ''Partner_ID''"
  then have fp: "firstPartner d config = Some p" by (simp add: firstPartner_Some)
  show "dashboardRow d config ''Partner_Name'' = Some ''Unknown''" if "p ''Partner_Name'' = Some []"
    using that by (simp add: dashboardRow_joined fp optionalField_def orElse_def)
  show "dashboardRow d config ''Status'' = Some ''INACTIVE''" if "p ''Status'' = Some []"
    using that by (simp add: dashboardRow_joined fp optionalField_def orElse_def)
next
  assume a: "displayRules d = pre' @ r # post'
      \<and> (\<forall>q\<in>set pre'. q ''Config_ID'' \<noteq> config ''Config_ID'')
      \<and> r ''Config_ID'' = config ''Config_ID''"
  then have fr: "firstRule d config = Some r" by (simp add: firstRule_Some)
  show "dashboardRow d config ''Priority'' = Some ''0''" if "r ''Priority'' = Some []"
    using that by (simp add: dashboardRow_joined fr optionalField_def orElse_def)
  show "dashboardRow d config ''User_Segment'' = Some ''All''" if "r ''User_Segment'' = Some []"
    using that by (simp add: dashboardRow_joined fr optionalField_def orElse_def)
next
  assume "\<forall>q\<in>set (partnerMaster d). q ''Partner_ID'' \<noteq> config ''Partner_ID''"
  then have fp: "firstPartner d config = None" by (rule firstPartner_None)
  show "dashboardRow d config ''Partner_Name'' = Some ''Unknown''"
    by (simp add: dashboardRow_joined fp optionalField_def orElse_def)
  show "dashboardRow d config ''Status'' = Some ''INACTIVE''"
    by (simp add: dashboardRow_joined fp optionalField_def orElse_def)
next
  assume "\<forall>q\<in>set (displayRules d). q ''Config_ID'' \<noteq> config ''Config_ID''"
  then have fr: "firstRule d config = None" by (rule firstRule_None)
  show "dashboardRow d config ''Priority'' = Some ''0''"
    by (simp add: dashboardRow_joined fr optionalField_def orElse_def)
  show "dashboardRow d config ''User_Segment'' = Some ''All''"
    by (simp add: dashboardRow_joined fr optionalField_def orElse_def)
qed

text \<open>A partner and a rule that match card A, all four fields empty.\<close>

theorem dashboard_empty_field_fallback_witness:
  "partnerMaster noNameData = [] @ partnerNoName # []
   \<and> partnerNoName ''Partner_ID'' = cardA ''Partner_ID''
   \<and> partnerNoName ''Partner_Name'' = Some [] \<and> partnerNoName ''Status'' = Some []
   \<and> displayRules noNameData = [] @ rule ''A'' [] [] # []
   \<and> rule ''A'' [] [] ''Config_ID'' = cardA ''Config_ID''
   \<and> rule ''A'' [] [] ''Priority'' = Some [] \<and> rule ''A'' [] [] ''User_Segment'' = Some []
   \<and> dashboardRow noNameData cardA ''Partner_Name'' = Some ''Unknown''
   \<and> dashboardRow noNameData cardA ''Status'' = Some ''INACTIVE''
   \<and> dashboardRow noNameData cardA ''Priority'' = Some ''0''
   \<and> dashboardRow noNameData cardA ''User_Segment'' = Some ''All''"
  using dashboard_empty_field_fallback [of noNameData "[]" partnerNoName "[]" cardA "[]" "rule ''A'' [] []" "[]"]
  by (simp add: noNameData_def partnerNoName_def ex_defs)

text \<open>
  Claim C5, as the code has it. There is one dashboard row per card, in the order of the
  cards. The row at position \<open>i\<close> has the fields of the card at \<open>i\<close> (under every name
  but the four joined ones) and, from the first partner with the card's \<open>Partner_ID\<close>,
  name and status, each replaced by \<open>Unknown\<close> and \<open>INACTIVE\<close> when no partner
  matches or when the field of the match is empty or undefined; likewise, from the first
  rule with the card's \<open>Config_ID\<close>, priority and segment, replaced by \<open>0\<close> and
  \<open>All\<close>.
\<close>

theorem dashboard_left_join:
  assumes "i < length (cardUIConfig d)"
  shows "length (dashboardRows (Some d)) = length (cardUIConfig d)
       \<and> (\<forall>k. k \<notin> {''Partner_Name'', ''Status'', ''Priority'', ''User_Segment''} \<longrightarrow>
             (dashboardRows (Some d) ! i) k = (cardUIConfig d ! i) k)
       \<and> ((\<forall>q\<in>set (partnerMaster d). q ''Partner_ID'' \<noteq> (cardUIConfig d ! i) ''Partner_ID'') \<longrightarrow>
             (dashboardRows (Some d) ! i) ''Partner_Name'' = Some ''Unknown''
           \<and> (dashboardRows (Some d) ! i) ''Status'' = Some ''INACTIVE'')
       \<and> (partnerMaster d = pre @ p # post
           \<and> (\<forall>q\<in>set pre. q ''Partner_ID'' \<noteq> (cardUIConfig d ! i) ''Partner_ID'')
           \<and> p ''Partner_ID'' = (cardUIConfig d ! i) ''Partner_ID'' \<longrightarrow>
             (dashboardRows (Some d) ! i) ''Partner_Name''
               = Some (orElse (p ''Partner_Name'') ''Unknown'')
           \<and> (dashboardRows (Some d) ! i) ''Status'' = Some (orElse (p ''Status'') ''INACTIVE''))
       \<and> ((\<forall>q\<in>set (displayRules d). q ''Config_ID'' \<noteq> (cardUIConfig d ! i) ''Config_ID'') \<longrightarrow>
             (dashboardRows (Some d) ! i) ''Priority'' = Some ''0''
           \<and> (dashboardRows (Some d) ! i) ''User_Segment'' = Some ''All'')
       \<and> (displayRules d = pre' @ r # post'
           \<and> (\<forall>q\<in>set pre'. q ''Config_ID'' \<noteq> (cardUIConfig d ! i) ''Config_ID'')
           \<and> r ''Config_ID'' = (cardUIConfig d ! i) ''Config_ID'' \<longrightarrow>
             (dashboardRows (Some d) ! i) ''Priority'' = Some (orElse (r ''Priority'') ''0'')
           \<and> (dashboardRows (Some d) ! i) ''User_Segment''
               = Some (orElse (r ''User_Segment'') ''All''))"
proof -
  let ?c = "cardUIConfig d ! i"
  have row: "dashboardRows (Some d) ! i = dashboardRow d ?c"
    using assms by (simp add: dashboardRows_def)
  have len: "length (dashboardRows (Some d)) = length (cardUIConfig d)"
    by (simp add: dashboardRows_def)
  have own: "\<forall>k. k \<notin> {''Partner_Name'', ''Status'', ''Priority'', ''User_Segment''} \<longrightarrow>
             dashboardRow d ?c k = ?c k"
    using dashboardRow_own_field [of _ d ?c] by blast
  have noP: "dashboardRow d ?c ''Partner_Name'' = Some ''Unknown''
           \<and> dashboardRow d ?c ''Status'' = Some ''INACTIVE''"
    if "\<forall>q\<in>set (partnerMaster d). q ''Partner_ID'' \<noteq> ?c ''Partner_ID''"
    using firstPartner_None [of d ?c] that
    by (simp add: dashboardRow_joined optionalField_def orElse_def)
  have someP: "dashboardRow d ?c ''Partner_Name'' = Some (orElse (p ''Partner_Name'') ''Unknown'')
           \<and> dashboardRow d ?c ''Status'' = Some (orElse (p ''Status'') ''INACTIVE'')"
    if "partnerMaster d = pre @ p # post
           \<and> (\<forall>q\<in>set pre. q ''Partner_ID'' \<noteq> ?c ''Partner_ID'')
           \<and> p ''Partner_ID'' = ?c ''Partner_ID''"
  proof -
    from that have "firstPartner d ?c = Some p" by (simp add: firstPartner_Some)
    then show ?thesis by (simp add: dashboardRow_joined optionalField_def)
  qed
  have noR: "dashboardRow d ?c ''Priority'' = Some ''0''
           \<and> dashboardRow d ?c ''User_Segment'' = Some ''All''"
    if "\<forall>q\<in>set (displayRules d). q ''Config_ID'' \<noteq> ?c ''Config_ID''"
    using firstRule_None [of d ?c] that
    by (simp add: dashboardRow_joined optionalField_def orElse_def)
  have someR: "dashboardRow d ?c ''Priority'' = Some (orElse (r ''Priority'') ''0'')
           \<and> dashboardRow d ?c ''User_Segment'' = Some (orElse (r ''User_Segment'') ''All'')"
    if "displayRules d = pre' @ r # post'
           \<and> (\<forall>q\<in>set pre'. q ''Config_ID'' \<noteq> ?c ''Config_ID'')
           \<and> r ''Config_ID'' = ?c ''Config_ID''"
  proof -
    from that have "firstRule d ?c = Some r" by (simp add: firstRule_Some)
    then show ?thesis by (simp add: dashboardRow_joined optionalField_def)
  qed
  show ?thesis
    unfolding row using len own noP someP noR someR by blast
qed

text \<open>
  Claim C5 as stated fails where the first matching partner has an empty name: the row
  does not carry that name but \<open>Unknown\<close>.
\<close>

theorem empty_partner_name_shown_as_unknown:
  "firstPartner noNameData cardA = Some partnerNoName
   \<and> partnerNoName ''Partner_Name'' = Some []
   \<and> (dashboardRows (Some noNameData) ! 0) ''Partner_Name'' = Some ''Unknown''"
  by (simp add: firstPartner_def noNameData_def partnerNoName_def ex_defs dashboardRows_def
      dashboardRow_def optionalField_def orElse_def)

text \<open>The first card of three, with a matching partner and a matching rule.\<close>

theorem dashboard_left_join_witness:
  "(0::nat) < length (cardUIConfig newUserData)
   \<and> partnerMaster newUserData = [] @ partnerP1 # [partnerP2]
   \<and> partnerP1 ''Partner_ID'' = (cardUIConfig newUserData ! 0) ''Partner_ID''
   \<and> displayRules newUserData = [] @ rule ''A'' ''New User'' ''1'' # []
   \<and> rule ''A'' ''New User'' ''1'' ''Config_ID'' = (cardUIConfig newUserData ! 0) ''Config_ID''
   \<and> length (dashboardRows (Some newUserData)) = 3
   \<and> (dashboardRows (Some newUserData) ! 0) ''Config_ID'' = Some ''A''
   \<and> (dashboardRows (Some newUserData) ! 0) ''Partner_Name'' = Some ''Acme Bank''
   \<and> (dashboardRows (Some newUserData) ! 0) ''Status'' = Some ''Active''
   \<and> (dashboardRows (Some newUserData) ! 0) ''Priority'' = Some ''1''
   \<and> (dashboardRows (Some newUserData) ! 0) ''User_Segment'' = Some ''New User''"
proof -
  have a: "(0::nat) < length (cardUIConfig newUserData)" by (simp add: newUserData_def)
  have b: "partnerMaster newUserData = [] @ partnerP1 # [partnerP2]"
    "displayRules newUserData = [] @ rule ''A'' ''New User'' ''1'' # []"
    "cardUIConfig newUserData ! 0 = cardA" "length (cardUIConfig newUserData) = 3"
    by (simp_all add: newUserData_def)
  have c: "partnerP1 ''Partner_ID'' = cardA ''Partner_ID''"
    "rule ''A'' ''New User'' ''1'' ''Config_ID'' = cardA ''Config_ID''"
    "cardA ''Config_ID'' = Some ''A''"
    "partnerP1 ''Partner_Name'' = Some ''Acme Bank''" "partnerP1 ''Status'' = Some ''Active''"
    "rule ''A'' ''New User'' ''1'' ''Priority'' = Some ''1''"
    "rule ''A'' ''New User'' ''1'' ''User_Segment'' = Some ''New User''"
    by (simp_all add: ex_defs)
  note t = dashboard_left_join [OF a, of "[]" partnerP1 "[partnerP2]" "[]" "rule ''A'' ''New User'' ''1''" "[]"]
  show ?thesis using t a b c by (simp add: orElse_def)
qed

section \<open>The priority of a card\<close>

declare bitLength.simps [simp del]

lemmas number_eval = parseInt_def trimStart_def leadingCode_def whiteSpaceCodes_def isDigit_def
  decimalValue_def digitValue_def roundToDouble_def roundMagnitude_def bitLength.simps

lemma takeWhile_Nil_hd: "takeWhile P xs = [] \<longleftrightarrow> (case xs of [] \<Rightarrow> True | x # _ \<Rightarrow> \<not> P x)"
  by (cases xs) auto

lemma parseInt_value:
  "parseInt s = (if startsWithInteger s then roundToDouble (leadingInteger s) else NaN)"
  by (auto simp: parseInt_def startsWithInteger_def leadingInteger_def stripSign_def Let_def
      takeWhile_Nil_hd split: list.splits)

lemma roundToDouble_small: "\<bar>i\<bar> < 2 ^ 53 \<Longrightarrow> roundToDouble i = Num i"
proof -
  assume a: "\<bar>i\<bar> < 2 ^ 53"
  then have "nat \<bar>i\<bar> < 2 ^ 53" by (simp add: nat_less_iff)
  then have m: "roundMagnitude (nat \<bar>i\<bar>) = nat \<bar>i\<bar>" by (simp add: roundMagnitude_def)
  have "nat \<bar>i\<bar> < (2::nat) ^ 1024"
    using \<open>nat \<bar>i\<bar> < 2 ^ 53\<close> by (rule less_le_trans) simp
  moreover have "(if i < 0 then - int (nat \<bar>i\<bar>) else int (nat \<bar>i\<bar>)) = i" by simp
  ultimately show ?thesis by (simp add: roundToDouble_def m Let_def del: nat_abs_triangle_ineq)
qed

lemma leadingCode_first:
  "\<forall>w\<in>set codes. w \<noteq> [] \<and> hd w \<noteq> c \<Longrightarrow> leadingCode codes (c # s) = 0"
proof -
  assume a: "\<forall>w\<in>set codes. w \<noteq> [] \<and> hd w \<noteq> c"
  have "take (length w) (c # s) \<noteq> w" if "w \<in> set codes" for w
  proof -
    from that a have "w \<noteq> []" "hd w \<noteq> c" by auto
    then show ?thesis by (cases w) auto
  qed
  then have "find (\<lambda>w. take (length w) (c # s) = w) codes = None"
    by (auto simp: find_None_iff)
  then show ?thesis by (simp add: leadingCode_def)
qed

lemma trimStart_no_space:
  "isDigit c \<or> c = CHR ''+'' \<or> c = CHR ''-'' \<Longrightarrow> trimStart (c # s) = c # s"
proof -
  assume "isDigit c \<or> c = CHR ''+'' \<or> c = CHR ''-''"
  then have "\<forall>w\<in>set whiteSpaceCodes. w \<noteq> [] \<and> hd w \<noteq> c"
    by (auto simp: whiteSpaceCodes_def isDigit_def)
  then have "leadingCode whiteSpaceCodes (c # s) = 0" by (rule leadingCode_first)
  then show ?thesis by (simp add: trimStart_def)
qed

lemma trimStart_Nil [simp]: "trimStart [] = []"
  by (simp add: trimStart_def)

lemma isIntegerText_no_space: "isIntegerText s \<Longrightarrow> trimStart s = s"
  by (cases s) (auto simp: isIntegerText_def stripSign_def intro!: trimStart_no_space
      split: if_splits)

lemma takeWhile_all: "list_all P xs \<Longrightarrow> takeWhile P xs = xs"
  by (simp add: list_all_iff)

lemma isIntegerText_value:
  assumes "isIntegerText s"
  shows "startsWithInteger s \<and> leadingInteger s = integerValue s"
proof -
  have ts: "trimStart s = s" using assms by (rule isIntegerText_no_space)
  have tw: "takeWhile isDigit (stripSign s) = stripSign s" and ne: "stripSign s \<noteq> []"
    and dg: "list_all isDigit (stripSign s)"
    using assms by (simp_all add: isIntegerText_def takeWhile_all)
  have "startsWithInteger s"
    using ne dg by (cases "stripSign s") (simp_all add: startsWithInteger_def ts)
  moreover have "leadingInteger s = integerValue s"
    by (simp add: leadingInteger_def integerValue_def ts tw)
  ultimately show ?thesis by simp
qed

lemma cardPriority_firstRule:
  "cardPriority d c = parseInt (orElse (optionalField (firstRule d c) ''Priority'') ''0'')"
  by (simp add: cardPriority_def firstRule_def)

lemma parseInt_zero: "parseInt ''0'' = Num 0"
  by (simp add: number_eval)

text \<open>
  Beyond \<open>2^53\<close> the number is the nearest double: the two texts below, which differ
  as integers, give the same priority, whose difference is zero.
\<close>

lemma parseInt_rounds:
  "parseInt ''9007199254740993'' = Num 9007199254740992"
  "parseInt ''9007199254740992'' = Num 9007199254740992"
  "jsMinus (parseInt ''9007199254740993'') (parseInt ''9007199254740992'') = Num 0"
  by (simp_all add: number_eval Let_def)

text \<open>
  The priority of a card, case by case. It is the number 0 where no rule matches or the
  \<open>Priority\<close> of the first rule is undefined or empty, and \<^verbatim>\<open>parseInt\<close> of that
  text otherwise. \<^verbatim>\<open>parseInt\<close> of a text is NaN exactly when the text does not begin
  (after white space and a sign) with a digit, and otherwise the double nearest to the
  integer it begins with, which is that integer itself below \<open>2^53\<close>.
\<close>

lemma priority_by_cases:
  "(firstRule d c = None \<longrightarrow> cardPriority d c = Num 0)
   \<and> (firstRule d c = Some r \<and> (r ''Priority'' = None \<or> r ''Priority'' = Some [])
        \<longrightarrow> cardPriority d c = Num 0)
   \<and> (firstRule d c = Some r \<and> r ''Priority'' = Some s \<and> s \<noteq> []
        \<longrightarrow> cardPriority d c = parseInt s)
   \<and> parseInt s = (if startsWithInteger s then roundToDouble (leadingInteger s) else NaN)
   \<and> (isIntegerText s \<longrightarrow> parseInt s = roundToDouble (integerValue s))
   \<and> (\<bar>i\<bar> < 2 ^ 53 \<longrightarrow> roundToDouble i = Num i)"
proof -
  have a: "cardPriority d c = Num 0" if "firstRule d c = None"
    using that by (simp add: cardPriority_firstRule optionalField_def orElse_def parseInt_zero)
  have b: "cardPriority d c = Num 0"
    if "firstRule d c = Some r \<and> (r ''Priority'' = None \<or> r ''Priority'' = Some [])"
    using that by (auto simp: cardPriority_firstRule optionalField_def orElse_def parseInt_zero)
  have e: "cardPriority d c = parseInt s"
    if "firstRule d c = Some r \<and> r ''Priority'' = Some s \<and> s \<noteq> []"
    using that by (simp add: cardPriority_firstRule optionalField_def orElse_def)
  have f: "parseInt s = roundToDouble (integerValue s)" if "isIntegerText s"
    using isIntegerText_value [OF that] by (simp add: parseInt_value)
  show ?thesis using a b e f parseInt_value [of s] roundToDouble_small [of i] by blast
qed

text \<open>The texts \<open>10\<close>, \<open>-7\<close>, \<open>12px\<close> and \<open>high\<close>.\<close>

lemma priority_by_cases_example:
  "firstRule stableData cardC = Some (rule ''C'' ''All'' ''10'')
   \<and> rule ''C'' ''All'' ''10'' ''Priority'' = Some ''10'' \<and> isIntegerText ''10''
   \<and> cardPriority stableData cardC = Num 10
   \<and> parseInt ''-7'' = Num (- 7) \<and> parseInt ''12px'' = Num 12 \<and> parseInt ''high'' = NaN"
proof -
  have a: "firstRule stableData cardC = Some (rule ''C'' ''All'' ''10'')"
    by (simp add: firstRule_def stableData_def ex_defs)
  have b: "rule ''C'' ''All'' ''10'' ''Priority'' = Some ''10''" by (simp add: rule_def)
  have c: "isIntegerText ''10''" "isIntegerText ''-7''"
    by (simp_all add: isIntegerText_def stripSign_def isDigit_def)
  have v: "integerValue ''10'' = 10" "integerValue ''-7'' = - 7"
    by (simp_all add: integerValue_def stripSign_def decimalValue_def digitValue_def)
  have r: "roundToDouble 10 = Num 10" "roundToDouble (- 7) = Num (- 7)" "roundToDouble 12 = Num 12"
    by (simp_all add: roundToDouble_small)
  have d: "\<not> startsWithInteger ''high''" "startsWithInteger ''12px''" "leadingInteger ''12px'' = 12"
    by (simp_all add: startsWithInteger_def leadingInteger_def stripSign_def trimStart_def
        leadingCode_def whiteSpaceCodes_def isDigit_def decimalValue_def digitValue_def)
  have ne: "''10'' \<noteq> []" by simp
  note t1 = priority_by_cases [of stableData cardC "rule ''C'' ''All'' ''10''" "''10''" 10]
  note t2 = priority_by_cases [of stableData cardC "rule ''C'' ''All'' ''10''" "''-7''" "- 7"]
  note t3 = priority_by_cases [of stableData cardC "rule ''C'' ''All'' ''10''" "''high''" 0]
  note t4 = priority_by_cases [of stableData cardC "rule ''C'' ''All'' ''10''" "''12px''" 12]
  have "cardPriority stableData cardC = parseInt ''10''" using t1 a b ne by blast
  moreover have "parseInt ''10'' = roundToDouble (integerValue ''10'')" using t1 c by blast
  ultimately have s1: "cardPriority stableData cardC = Num 10" by (simp add: v r)
  have "parseInt ''-7'' = roundToDouble (integerValue ''-7'')" using t2 c by blast
  then have s2: "parseInt ''-7'' = Num (- 7)" by (simp add: v r)
  have "parseInt ''high''
        = (if startsWithInteger ''high'' then roundToDouble (leadingInteger ''high'') else NaN)"
    using t3 by blast
  then have s3: "parseInt ''high'' = NaN" by (simp add: d)
  have "parseInt ''12px''
        = (if startsWithInteger ''12px'' then roundToDouble (leadingInteger ''12px'') else NaN)"
    using t4 by blast
  then have s4: "parseInt ''12px'' = Num 12" by (simp add: d r)
  show ?thesis using a b c s1 s2 s3 s4 by simp
qed

text \<open>
  Claim C2 at a priority text that is no number. The claim says that the priority is 0
  whenever the text does not parse. The first rule of card A has the priority text
  \<open>high\<close>; the text is not empty, so \<^verbatim>\<open>|| '0'\<close> leaves it, and \<^verbatim>\<open>parseInt\<close>
  gives NaN.
\<close>

theorem unparseable_priority_is_NaN:
  "firstRule unparseableData cardA = Some (rule ''A'' ''All'' ''high'')
   \<and> rule ''A'' ''All'' ''high'' ''Priority'' = Some ''high''
   \<and> cardPriority unparseableData cardA = NaN
   \<and> specPriority unparseableData cardA = 0"
  by (simp add: firstRule_def unparseableData_def cardPriority_def specPriority_def ex_defs
      optionalField_def orElse_def parseInt_def startsWithInteger_def stripSign_def trimStart_def
      leadingCode_def whiteSpaceCodes_def isDigit_def)

section \<open>The comparison with \<open>ACTIVE\<close>\<close>

lemmas upper_eval = toUpperCase_def upperCaseOf_def upperCaseSpecial_def upperCaseRuns_def
  inRun_def units_def

text \<open>
  On ASCII strings, \<^verbatim>\<open>s.toUpperCase() === 'ACTIVE'\<close> holds exactly for the strings equal
  to \<open>active\<close> when case is ignored.
\<close>

lemma codePoints_ascii:
  "\<forall>c\<in>set s. (of_char c :: nat) < 128 \<Longrightarrow> codePoints s = map of_char s"
  by (induction s rule: codePoints.induct) auto

lemma special_above_ascii: "\<forall>k\<in>fst ` set upperCaseSpecial. 128 \<le> k"
  by (simp add: upperCaseSpecial_def)

lemma runs_above_ascii: "\<forall>r\<in>set (tl upperCaseRuns). 128 \<le> fst r"
  by (simp add: upperCaseRuns_def)

lemma upperCaseRuns_hd: "upperCaseRuns = (0x61, 0x7A, 1, 0x41) # tl upperCaseRuns"
  by (simp add: upperCaseRuns_def)

lemma find_above: "\<forall>r\<in>set rs. n < fst r \<Longrightarrow> find (inRun n) rs = None"
  by (induction rs) (auto simp: inRun_def)

lemma upperCaseOf_ascii:
  assumes "n < 128"
  shows "upperCaseOf n = [if 97 \<le> n \<and> n \<le> 122 then n - 32 else n]"
proof -
  have "n \<notin> fst ` set upperCaseSpecial" using special_above_ascii assms by fastforce
  then have sp: "map_of upperCaseSpecial n = None" by (simp add: map_of_eq_None_iff)
  have "\<forall>r\<in>set (tl upperCaseRuns). n < fst r" using runs_above_ascii assms by fastforce
  then have tl: "find (inRun n) (tl upperCaseRuns) = None" by (rule find_above)
  have "find (inRun n) upperCaseRuns
        = (if 97 \<le> n \<and> n \<le> 122 then Some (0x61, 0x7A, 1, 0x41) else None)"
    by (subst upperCaseRuns_hd) (simp add: tl inRun_def)
  then show ?thesis by (simp add: upperCaseOf_def sp)
qed

lemma toUpperCase_ascii:
  assumes "\<forall>c\<in>set s. (of_char c :: nat) < 128"
  shows "toUpperCase s = map (\<lambda>c. if 97 \<le> (of_char c :: nat) \<and> (of_char c :: nat) \<le> 122
                                 then of_char c - 32 else of_char c) s"
  using assms
proof (induction s)
  case Nil
  then show ?case by (simp add: toUpperCase_def)
next
  case (Cons c s)
  then have "toUpperCase s = map (\<lambda>c. if 97 \<le> (of_char c :: nat) \<and> (of_char c :: nat) \<le> 122
                                 then of_char c - 32 else of_char c) s" by simp
  moreover have "codePoints (c # s) = of_char c # codePoints s"
    using Cons.prems by (simp add: codePoints_ascii)
  moreover have "upperCaseOf (of_char c) = [if 97 \<le> (of_char c :: nat) \<and> (of_char c :: nat) \<le> 122
                                 then of_char c - 32 else of_char c]"
    using Cons.prems by (intro upperCaseOf_ascii) simp
  ultimately show ?case by (simp add: toUpperCase_def)
qed

lemma upper_letter:
  assumes "65 \<le> n" "n \<le> 90"
  shows "(if 97 \<le> (of_char c :: nat) \<and> (of_char c :: nat) \<le> 122 then of_char c - 32 else of_char c) = n
         \<longleftrightarrow> foldCase c = n + 32"
  using assms by (auto simp: foldCase_def Let_def)

lemma map_eq_Cons_ex: "map f s = n # t \<longleftrightarrow> (\<exists>c s'. s = c # s' \<and> f c = n \<and> map f s' = t)"
  by (cases s) auto

lemma toUpperCase_ACTIVE_ascii:
  assumes "\<forall>c\<in>set s. (of_char c :: nat) < 128"
  shows "toUpperCase s = units ''ACTIVE'' \<longleftrightarrow> equalsIgnoreCase s ''active''"
proof -
  have u: "units ''ACTIVE'' = [65, 67, 84, 73, 86, 69]" by (simp add: units_def)
  have f: "map foldCase ''active'' = [97, 99, 116, 105, 118, 101]" by (simp add: foldCase_def)
  show ?thesis
    unfolding toUpperCase_ascii [OF assms] equalsIgnoreCase_def u f
    by (simp add: map_eq_Cons_ex upper_letter)
qed

lemma toUpperCase_spellings:
  "toUpperCase ''active'' = units ''ACTIVE''"
  "toUpperCase ''Active'' = units ''ACTIVE''"
  "toUpperCase ''ACTIVE'' = units ''ACTIVE''"
  "toUpperCase ''inactive'' \<noteq> units ''ACTIVE''"
  "toUpperCase ''Inactive'' \<noteq> units ''ACTIVE''"
  "toUpperCase ''INACTIVE'' \<noteq> units ''ACTIVE''"
  by (simp_all add: toUpperCase_ascii units_def)

text \<open>
  The upper case of U+0131, the dotless i, is the letter I: a status written with it has
  the upper-case form \<open>ACTIVE\<close>.
\<close>

lemma codePoints_dotless: "codePoints dotlessStatus = [0x61, 0x63, 0x74, 0x131, 0x76, 0x65]"
  by (simp add: dotlessStatus_def)

lemma toUpperCase_dotless: "toUpperCase dotlessStatus = units ''ACTIVE''"
  by (simp add: dotlessStatus_def upper_eval)

lemma dotless_not_active: "\<not> equalsIgnoreCase dotlessStatus ''active''"
  by (simp add: equalsIgnoreCase_def dotlessStatus_def)

section \<open>The filters and the sort of \<^verbatim>\<open>mobileCards\<close>\<close>

lemma filterActive_typed:
  "\<forall>p\<in>set ps. p ''Status'' \<noteq> None \<Longrightarrow> filterActive ps = Inr (filter activeStatus ps)"
  by (induction ps) (auto simp: activeStatus_def)

lemma filterActive_Inr:
  "filterActive ps = Inr act \<Longrightarrow> act = filter activeStatus ps \<and> (\<forall>p\<in>set ps. p ''Status'' \<noteq> None)"
  by (induction ps arbitrary: act) (auto simp: activeStatus_def split: option.splits sum.splits)

lemma filterActive_Inl:
  "filterActive ps = Inl e \<longleftrightarrow> (\<exists>p\<in>set ps. p ''Status'' = None)"
proof (induction ps)
  case Nil
  then show ?case by simp
next
  case (Cons p ps)
  then show ?case by (cases e) (auto split: option.splits sum.splits)
qed

subsection \<open>The sort of an engine\<close>

lemma mset_insertSorted: "mset (insertSorted cmp x ys) = add_mset x (mset ys)"
  by (induction ys) auto

lemma mset_stableSort: "mset (stableSort cmp xs) = mset xs"
  by (induction xs) (auto simp: stableSort_def mset_insertSorted)

lemma set_stableSort: "set (stableSort cmp xs) = set xs"
  using mset_stableSort [of cmp xs] by (metis set_mset_mset)

lemma engine_contract:
  "mset (Rep_sort_engine engine cmp xs) = mset xs
   \<and> (consistentComparator cmp (set xs) \<longrightarrow> Rep_sort_engine engine cmp xs = stableSort cmp xs)"
  using Rep_sort_engine [of engine] by simp

lemma mset_engineSort: "mset (engineSort engine comparefn xs) = mset xs"
  by (simp add: engineSort_def engine_contract)

lemma set_engineSort: "set (engineSort engine comparefn xs) = set xs"
  using mset_engineSort [of engine comparefn xs] by (metis set_mset_mset)

lemma engineSort_consistent:
  "consistentComparator (sortCompare comparefn) (set xs) \<Longrightarrow>
   engineSort engine comparefn xs = stableSort (sortCompare comparefn) xs"
  by (simp add: engineSort_def engine_contract)

lemma engineSort_insertionEngine:
  "engineSort insertionEngine comparefn xs = stableSort (sortCompare comparefn) xs"
  by (simp add: engineSort_def insertionEngine_def Abs_sort_engine_inverse mset_stableSort)

text \<open>
  A comparison that orders the elements as a key does is consistent, and the stable sort
  by it is the stable sort by the key.
\<close>

lemma key_consistent:
  fixes key :: "'a \<Rightarrow> int"
  assumes "\<forall>a\<in>S. \<forall>b\<in>S. (cmp a b < 0 \<longleftrightarrow> key a < key b) \<and> (cmp a b = 0 \<longleftrightarrow> key a = key b)"
  shows "consistentComparator cmp S"
proof -
  have gt: "0 < cmp a b \<longleftrightarrow> key b < key a" if "a \<in> S" "b \<in> S" for a b
  proof -
    have "0 < cmp a b \<longleftrightarrow> \<not> cmp a b < 0 \<and> cmp a b \<noteq> 0" by auto
    also have "\<dots> \<longleftrightarrow> \<not> key a < key b \<and> key a \<noteq> key b" using assms that by simp
    also have "\<dots> \<longleftrightarrow> key b < key a" by auto
    finally show ?thesis .
  qed
  have lt: "cmp a b < 0 \<longleftrightarrow> key a < key b" and eq: "cmp a b = 0 \<longleftrightarrow> key a = key b"
    if "a \<in> S" "b \<in> S" for a b
    using assms that by simp_all
  show ?thesis
    unfolding consistentComparator_def
  proof (intro conjI ballI impI)
    fix a assume "a \<in> S" then show "cmp a a = 0" by (simp add: eq)
  next
    fix a b assume "a \<in> S" "b \<in> S" "cmp a b = 0" then show "cmp b a = 0" by (simp add: eq)
  next
    fix a b c assume "a \<in> S" "b \<in> S" "c \<in> S" "cmp a b = 0 \<and> cmp b c = 0"
    then show "cmp a c = 0" by (simp add: eq)
  next
    fix a b c assume "a \<in> S" "b \<in> S" "c \<in> S" "cmp a b < 0 \<and> cmp b c < 0"
    then show "cmp a c < 0" by (simp add: lt)
  next
    fix a b c assume "a \<in> S" "b \<in> S" "c \<in> S" "0 < cmp a b \<and> 0 < cmp b c"
    then show "0 < cmp a c" by (simp add: gt)
  qed
qed

lemma insertSorted_insort_key:
  fixes key :: "'a \<Rightarrow> int"
  shows "\<forall>y\<in>set ys. (cmp x y \<le> 0 \<longleftrightarrow> key x \<le> key y) \<Longrightarrow>
         insertSorted cmp x ys = insort_key key x ys"
  by (induction ys) auto

lemma stableSort_sort_key:
  fixes key :: "'a \<Rightarrow> int"
  assumes "\<forall>a\<in>set xs. \<forall>b\<in>set xs. (cmp a b \<le> 0 \<longleftrightarrow> key a \<le> key b)"
  shows "stableSort cmp xs = sort_key key xs"
  using assms
proof (induction xs)
  case Nil
  then show ?case by (simp add: stableSort_def)
next
  case (Cons x xs)
  then have ih: "stableSort cmp xs = sort_key key xs" by simp
  have "\<forall>y\<in>set (stableSort cmp xs). (cmp x y \<le> 0 \<longleftrightarrow> key x \<le> key y)"
    using Cons.prems by (simp add: set_stableSort)
  then have "insertSorted cmp x (stableSort cmp xs) = insort_key key x (stableSort cmp xs)"
    by (rule insertSorted_insort_key)
  then show ?case using ih by (simp add: stableSort_def sort_key_def)
qed

lemma engineSort_by_key:
  fixes key :: "'a \<Rightarrow> int"
  assumes "\<forall>a\<in>set xs. \<forall>b\<in>set xs.
             (sortCompare comparefn a b < 0 \<longleftrightarrow> key a < key b)
             \<and> (sortCompare comparefn a b = 0 \<longleftrightarrow> key a = key b)"
  shows "engineSort engine comparefn xs = sort_key key xs"
proof -
  have "consistentComparator (sortCompare comparefn) (set xs)"
    using assms by (rule key_consistent)
  then have "engineSort engine comparefn xs = stableSort (sortCompare comparefn) xs"
    by (rule engineSort_consistent)
  moreover have "\<forall>a\<in>set xs. \<forall>b\<in>set xs.
      (sortCompare comparefn a b \<le> 0 \<longleftrightarrow> key a \<le> key b)"
    using assms by (auto simp: le_less)
  ultimately show ?thesis by (simp add: stableSort_sort_key)
qed

text \<open>
  Where every comparison is zero, every engine leaves the list as it is.
\<close>

lemma engineSort_all_equal:
  assumes "\<forall>a\<in>set xs. \<forall>b\<in>set xs. sortCompare comparefn a b = 0"
  shows "engineSort engine comparefn xs = xs"
proof -
  have "engineSort engine comparefn xs = sort_key (\<lambda>_. 0 :: int) xs"
    using assms by (intro engineSort_by_key) simp
  then show ?thesis by (simp add: sort_key_const)
qed

subsection \<open>The comparison of two priorities\<close>

lemma bitLength_lower: "0 < m \<Longrightarrow> 2 ^ (bitLength m - 1) \<le> m"
proof (induction m rule: bitLength.induct)
  case (1 n)
  show ?case
  proof (cases "n div 2 = 0")
    case True
    with "1.prems" have "n = 1" by (simp add: div_eq_0_iff) 
    then show ?thesis by (simp add: bitLength.simps)
  next
    case False
    then have pos: "0 < n div 2" by simp
    with "1.IH" "1.prems" have ih: "2 ^ (bitLength (n div 2) - 1) \<le> n div 2" by simp
    have bl: "bitLength n = Suc (bitLength (n div 2))"
      using "1.prems" by (subst bitLength.simps) simp
    have "0 < bitLength (n div 2)" using pos by (subst bitLength.simps) simp
    then have "(2::nat) ^ (bitLength n - 1) = 2 * 2 ^ (bitLength (n div 2) - 1)"
      by (cases "bitLength (n div 2)") (simp_all add: bl)
    also have "\<dots> \<le> 2 * (n div 2)" using ih by simp
    also have "\<dots> \<le> n" by simp
    finally show ?thesis .
  qed
qed

lemma roundMagnitude_pos: "0 < m \<Longrightarrow> 0 < roundMagnitude m"
proof (cases "m < 2 ^ 53")
  case True
  assume "0 < m"
  with True show ?thesis by (simp add: roundMagnitude_def)
next
  case False
  assume pos: "0 < m"
  let ?e = "bitLength m - 53"
  have "(2::nat) ^ ?e \<le> 2 ^ (bitLength m - 1)" by (rule power_increasing) simp_all
  also have "\<dots> \<le> m" using pos by (rule bitLength_lower)
  finally have "0 < m div 2 ^ ?e" by (simp add: div_greater_zero_iff)
  then show ?thesis using False by (simp add: roundMagnitude_def Let_def)
qed

lemma roundToDouble_sign:
  "(signValue (roundToDouble i) < 0 \<longleftrightarrow> i < 0) \<and> (signValue (roundToDouble i) = 0 \<longleftrightarrow> i = 0)"
proof (cases "i = 0")
  case True
  then show ?thesis by (simp add: roundToDouble_def roundMagnitude_def signValue_def)
next
  case False
  then have "0 < nat \<bar>i\<bar>" by simp
  then have "0 < roundMagnitude (nat \<bar>i\<bar>)" by (rule roundMagnitude_pos)
  with False show ?thesis by (auto simp: roundToDouble_def Let_def signValue_def)
qed

lemma isDouble_roundToDouble: "isDouble (roundToDouble i)"
  by (auto simp: roundToDouble_def isDouble_def Let_def)

lemma isDouble_cardPriority: "isDouble (cardPriority d c)"
  by (simp add: cardPriority_firstRule parseInt_value isDouble_roundToDouble)
     (simp add: isDouble_def)

lemma jsMinus_sign:
  assumes "x \<noteq> NaN" "y \<noteq> NaN" "isDouble x" "isDouble y"
  shows "(signValue (jsMinus y x) < 0 \<longleftrightarrow> doubleRank y < doubleRank x)
       \<and> (signValue (jsMinus y x) = 0 \<longleftrightarrow> doubleRank y = doubleRank x)"
proof (cases x; cases y)
  fix a b assume "x = Num a" "y = Num b"
  then show ?thesis using roundToDouble_sign [of "b - a"] by (simp add: doubleRank_def)
qed (use assms in \<open>auto simp: signValue_def doubleRank_def isDouble_def\<close>)

lemma sortCompare_signValue: "sortCompare comparefn x y = signValue (comparefn x y)"
  by (simp add: sortCompare_def signValue_def)

lemma comparePriority_key:
  assumes "cardPriority d a \<noteq> NaN" "cardPriority d b \<noteq> NaN"
  shows "(sortCompare (comparePriority d) a b < 0 \<longleftrightarrow> priorityKey d a < priorityKey d b)
       \<and> (sortCompare (comparePriority d) a b = 0 \<longleftrightarrow> priorityKey d a = priorityKey d b)"
  using jsMinus_sign [OF assms isDouble_cardPriority isDouble_cardPriority]
  by (auto simp: sortCompare_signValue comparePriority_def priorityKey_def)

lemma engineSort_numeric:
  assumes "\<forall>c\<in>set xs. cardPriority d c \<noteq> NaN"
  shows "engineSort engine (comparePriority d) xs = sort_key (priorityKey d) xs"
  using assms by (intro engineSort_by_key) (simp add: comparePriority_key)

subsection \<open>The result of \<^verbatim>\<open>mobileCards\<close>\<close>

lemma mobileCards_typed:
  assumes "\<forall>p\<in>set (partnerMaster d). p ''Status'' \<noteq> None"
  shows "mobileCards engine (Some d) seg
         = Inr (engineSort engine (comparePriority d) (eligibleInOrder d seg))"
proof -
  have gate: "c ''Partner_ID'' \<in> (\<lambda>p. p ''Partner_ID'') ` {p \<in> set (partnerMaster d). activeStatus p}
        \<longleftrightarrow> statusGate d c" for c
    by (fastforce simp: statusGate_def image_iff)
  show ?thesis
    by (simp add: mobileCards_def eligibleInOrder_def Let_def filterActive_typed [OF assms] gate)
qed

lemma mobileCards_Inr:
  assumes "mobileCards engine (Some d) seg = Inr cs"
  shows "cs = engineSort engine (comparePriority d) (eligibleInOrder d seg)
         \<and> (\<forall>p\<in>set (partnerMaster d). p ''Status'' \<noteq> None)"
proof -
  from assms obtain act where act: "filterActive (partnerMaster d) = Inr act"
    by (auto simp: mobileCards_def split: sum.splits)
  then have typed: "\<forall>p\<in>set (partnerMaster d). p ''Status'' \<noteq> None"
    using filterActive_Inr by blast
  with assms mobileCards_typed [OF typed, of engine seg] show ?thesis by simp
qed

text \<open>
  \<^verbatim>\<open>mobileCards\<close> throws exactly on tables with a partner record that has no
  \<open>Status\<close>.
\<close>

lemma mobileCards_TypeError:
  "mobileCards engine (Some d) seg = Inl TypeError \<longleftrightarrow> \<not> typedPartners d"
proof
  assume "mobileCards engine (Some d) seg = Inl TypeError"
  show "\<not> typedPartners d"
  proof
    assume "typedPartners d"
    then have "mobileCards engine (Some d) seg
               = Inr (engineSort engine (comparePriority d) (eligibleInOrder d seg))"
      by (intro mobileCards_typed) (simp add: typedPartners_def)
    with \<open>mobileCards engine (Some d) seg = Inl TypeError\<close> show False by simp
  qed
next
  assume "\<not> typedPartners d"
  then have "filterActive (partnerMaster d) = Inl TypeError"
    using filterActive_Inl [of "partnerMaster d" TypeError] by (simp add: typedPartners_def)
  then show "mobileCards engine (Some d) seg = Inl TypeError" by (simp add: mobileCards_def)
qed

text \<open>The eligible cards of the example tables.\<close>

lemmas eval_defs = mobileCards_def segmentFilter_def engineSort_insertionEngine stableSort_def
  sortCompare_def comparePriority_def cardPriority_def optionalField_def orElse_def
  number_eval toUpperCase_spellings

lemmas gate_defs = eligibleInOrder_def statusGate_def activeStatus_def segmentFilter_def
  toUpperCase_spellings

lemmas prio_defs = cardPriority_def optionalField_def orElse_def number_eval

lemma stable_eval: "mobileCards insertionEngine (Some stableData) ''All'' = Inr [cardC, cardA, cardB]"
  by (simp add: stableData_def eval_defs Let_def ex_defs)

lemma newUser_eval:
  "mobileCards insertionEngine (Some newUserData) ''New User'' = Inr [cardA, cardB]"
  "mobileCards insertionEngine (Some newUserData) ''Existing User'' = Inr [cardB]"
  "mobileCards insertionEngine (Some newUserData) ''All'' = Inr [cardB]"
  "mobileCards insertionEngine (Some newUserData) ''new user'' = Inr [cardB]"
  by (simp_all add: newUserData_def eval_defs Let_def ex_defs)

subsection \<open>The status gate\<close>

text \<open>
  What the status gate of the code is: whatever the segment and the engine, every card
  that \<^verbatim>\<open>mobileCards\<close> returns has a partner record with an equal \<open>Partner_ID\<close> whose
  \<open>Status\<close> has the upper-case form \<open>ACTIVE\<close>; a card all of whose partners (the
  records with an equal \<open>Partner_ID\<close>, possibly none) have the status \<open>inactive\<close>,
  \<open>Inactive\<close> or \<open>INACTIVE\<close> is not returned. When the statuses are ASCII strings, the
  partner's status equals \<open>active\<close> with case ignored.
\<close>

lemma status_gate_upper_case:
  assumes "mobileCards engine (Some d) seg = Inr cs"
  shows "(\<forall>c\<in>set cs. \<exists>p\<in>set (partnerMaster d). p ''Partner_ID'' = c ''Partner_ID''
            \<and> (\<exists>s. p ''Status'' = Some s \<and> toUpperCase s = units ''ACTIVE''))
       \<and> (\<forall>c. (\<forall>p\<in>set (partnerMaster d). p ''Partner_ID'' = c ''Partner_ID'' \<longrightarrow>
                  p ''Status'' \<in> {Some ''inactive'', Some ''Inactive'', Some ''INACTIVE''})
              \<longrightarrow> c \<notin> set cs)"
proof -
  from mobileCards_Inr [OF assms]
  have cs: "set cs = set (eligibleInOrder d seg)" by (simp add: set_engineSort)
  have gate: "\<exists>p\<in>set (partnerMaster d). p ''Partner_ID'' = c ''Partner_ID''
            \<and> (\<exists>s. p ''Status'' = Some s \<and> toUpperCase s = units ''ACTIVE'')" if "c \<in> set cs" for c
  proof -
    from that cs have "statusGate d c" by (simp add: eligibleInOrder_def)
    then obtain p where p: "p \<in> set (partnerMaster d)" "p ''Partner_ID'' = c ''Partner_ID''"
      "activeStatus p"
      by (auto simp: statusGate_def)
    from p(3) obtain s where "p ''Status'' = Some s" "toUpperCase s = units ''ACTIVE''"
      by (auto simp: activeStatus_def split: option.splits)
    with p(1,2) show ?thesis by auto
  qed
  have excl: "c \<notin> set cs"
    if "\<forall>p\<in>set (partnerMaster d). p ''Partner_ID'' = c ''Partner_ID'' \<longrightarrow>
          p ''Status'' \<in> {Some ''inactive'', Some ''Inactive'', Some ''INACTIVE''}" for c
  proof
    assume "c \<in> set cs"
    from gate [OF this] obtain p s where "p \<in> set (partnerMaster d)"
      "p ''Partner_ID'' = c ''Partner_ID''" "p ''Status'' = Some s" "toUpperCase s = units ''ACTIVE''"
      by blast
    with that toUpperCase_spellings(4-6) show False by auto
  qed
  show ?thesis using gate excl by blast
qed

lemma status_gate_ascii:
  assumes "mobileCards engine (Some d) seg = Inr cs"
    and "\<forall>p\<in>set (partnerMaster d). \<forall>s. p ''Status'' = Some s \<longrightarrow> (\<forall>c\<in>set s. (of_char c :: nat) < 128)"
    and "c \<in> set cs"
  shows "\<exists>p\<in>set (partnerMaster d). p ''Partner_ID'' = c ''Partner_ID''
            \<and> (\<exists>s. p ''Status'' = Some s \<and> equalsIgnoreCase s ''active'')"
proof -
  from status_gate_upper_case [OF assms(1)] assms(3)
  obtain p s where p: "p \<in> set (partnerMaster d)" "p ''Partner_ID'' = c ''Partner_ID''"
    "p ''Status'' = Some s" "toUpperCase s = units ''ACTIVE''"
    by blast
  from assms(2) p(1,3) have "\<forall>c\<in>set s. (of_char c :: nat) < 128" by blast
  then have "equalsIgnoreCase s ''active''" using p(4) by (simp add: toUpperCase_ACTIVE_ascii)
  with p(1-3) show ?thesis by blast
qed

lemma engineSort_Nil: "engineSort engine comparefn [] = []"
  using mset_engineSort [of engine comparefn "[]"] by simp

lemma engineSort_single: "engineSort engine comparefn [x] = [x]"
  using mset_engineSort [of engine comparefn "[x]"] by simp

text \<open>
  Claim C4 at a partner whose status is \<open>active\<close> written with the dotless i (U+0131):
  the status does not equal \<open>active\<close> when case is ignored, yet its upper-case form is
  \<open>ACTIVE\<close>, and \<^verbatim>\<open>mobileCards\<close> returns the card of this partner, whatever the
  segment and the engine.
\<close>

theorem dotless_status_retained:
  "mobileCards engine (Some dotlessData) seg = Inr [cardA]
   \<and> map (\<lambda>p. (p ''Partner_ID'', p ''Status'')) (partnerMaster dotlessData)
       = [(cardA ''Partner_ID'', Some dotlessStatus)]
   \<and> codePoints dotlessStatus = [0x61, 0x63, 0x74, 0x131, 0x76, 0x65]
   \<and> toUpperCase dotlessStatus = units ''ACTIVE''
   \<and> \<not> equalsIgnoreCase dotlessStatus ''active''"
proof -
  have typed: "\<forall>p\<in>set (partnerMaster dotlessData). p ''Status'' \<noteq> None"
    by (simp add: dotlessData_def ex_defs)
  have "activeStatus partnerDotless"
    by (simp add: activeStatus_def partnerDotless_def toUpperCase_dotless)
  then have el: "eligibleInOrder dotlessData seg = [cardA]"
    by (simp add: eligibleInOrder_def statusGate_def segmentFilter_def dotlessData_def
        partnerDotless_def cardA_def)
  have a: "mobileCards engine (Some dotlessData) seg = Inr [cardA]"
    by (simp add: mobileCards_typed [OF typed] el engineSort_single)
  have b: "map (\<lambda>p. (p ''Partner_ID'', p ''Status'')) (partnerMaster dotlessData)
       = [(cardA ''Partner_ID'', Some dotlessStatus)]"
    by (simp add: dotlessData_def partnerDotless_def cardA_def)
  show ?thesis using a b codePoints_dotless toUpperCase_dotless dotless_not_active by simp
qed

subsection \<open>The segment gate\<close>

text \<open>
  Claim C3. On tables whose partners all have a \<open>Status\<close>, \<^verbatim>\<open>mobileCards\<close> returns
  a list, and a card is in it exactly when it is a card of the table that passes the status
  gate and either no rule has its \<open>Config_ID\<close>, or some rule with its \<open>Config_ID\<close>
  has a segment that is the string \<open>All\<close> or the requested segment, compared as
  strings.
\<close>

theorem segment_gate:
  assumes "typedPartners d"
  shows "\<exists>cs. mobileCards engine (Some d) seg = Inr cs
          \<and> (\<forall>c. c \<in> set cs \<longleftrightarrow>
                c \<in> set (cardUIConfig d) \<and> statusGate d c
                \<and> ((\<forall>r\<in>set (displayRules d). r ''Config_ID'' \<noteq> c ''Config_ID'')
                   \<or> (\<exists>r\<in>set (displayRules d). r ''Config_ID'' = c ''Config_ID''
                         \<and> (r ''User_Segment'' = Some ''All'' \<or> r ''User_Segment'' = Some seg))))"
proof -
  have seg: "segmentFilter d seg c \<longleftrightarrow>
      (\<forall>r\<in>set (displayRules d). r ''Config_ID'' \<noteq> c ''Config_ID'')
      \<or> (\<exists>r\<in>set (displayRules d). r ''Config_ID'' = c ''Config_ID''
            \<and> (r ''User_Segment'' = Some ''All'' \<or> r ''User_Segment'' = Some seg))" for c
    by (auto simp: segmentFilter_def Let_def list_ex_iff filter_empty_conv)
  have "mobileCards engine (Some d) seg
        = Inr (engineSort engine (comparePriority d) (eligibleInOrder d seg))"
    using assms by (intro mobileCards_typed) (simp add: typedPartners_def)
  moreover have "c \<in> set (engineSort engine (comparePriority d) (eligibleInOrder d seg)) \<longleftrightarrow>
      c \<in> set (cardUIConfig d) \<and> statusGate d c \<and> segmentFilter d seg c" for c
    by (auto simp: set_engineSort eligibleInOrder_def)
  ultimately show ?thesis using seg by simp
qed

text \<open>
  A rule for the segment \<open>New User\<close> admits card A for that segment only, not for
  \<open>Existing User\<close>, \<open>All\<close> or \<open>new user\<close>; card B has no rule and is always
  admitted.
\<close>

theorem segment_gate_witness:
  "map (\<lambda>p. p ''Status'') (partnerMaster newUserData) = [Some ''Active'', Some ''Inactive'']
   \<and> mobileCards insertionEngine (Some newUserData) ''New User'' = Inr [cardA, cardB]
   \<and> mobileCards insertionEngine (Some newUserData) ''Existing User'' = Inr [cardB]
   \<and> mobileCards insertionEngine (Some newUserData) ''All'' = Inr [cardB]
   \<and> mobileCards insertionEngine (Some newUserData) ''new user'' = Inr [cardB]
   \<and> statusGate newUserData cardA
   \<and> (\<exists>r\<in>set (displayRules newUserData). r ''Config_ID'' = cardA ''Config_ID'')"
proof -
  have a: "typedPartners newUserData" by (simp add: typedPartners_def newUserData_def ex_defs)
  from segment_gate [OF a, of insertionEngine "''New User''"] newUser_eval(1)
  have iff: "cardA \<in> set [cardA, cardB] \<longleftrightarrow>
      cardA \<in> set (cardUIConfig newUserData) \<and> statusGate newUserData cardA
      \<and> ((\<forall>r\<in>set (displayRules newUserData). r ''Config_ID'' \<noteq> cardA ''Config_ID'')
         \<or> (\<exists>r\<in>set (displayRules newUserData). r ''Config_ID'' = cardA ''Config_ID''
               \<and> (r ''User_Segment'' = Some ''All'' \<or> r ''User_Segment'' = Some ''New User'')))"
    by auto
  then have g: "statusGate newUserData cardA" by simp
  have r: "\<exists>r\<in>set (displayRules newUserData). r ''Config_ID'' = cardA ''Config_ID''"
    by (simp add: newUserData_def ex_defs)
  have st: "map (\<lambda>p. p ''Status'') (partnerMaster newUserData)
              = [Some ''Active'', Some ''Inactive'']"
    by (simp add: newUserData_def ex_defs)
  show ?thesis using st newUser_eval g r by simp
qed

subsection \<open>The order of the cards\<close>

text \<open>
  What the sort of the code gives when the priority of every eligible card is a number
  (its text begins with an integer): on tables whose partners all have a \<open>Status\<close>,
  \<^verbatim>\<open>mobileCards\<close> returns, whatever the engine, the eligible cards, each as often as
  it is eligible, in descending order of the priority as a double, and the cards of any
  one priority in their original order.
\<close>

lemma sorted_when_numeric:
  assumes "typedPartners d"
    and "\<forall>c\<in>set (eligibleInOrder d seg). cardPriority d c \<noteq> NaN"
  shows "\<exists>cs. mobileCards engine (Some d) seg = Inr cs
          \<and> mset cs = mset (eligibleInOrder d seg)
          \<and> sorted_wrt (\<lambda>a b. doubleRank (cardPriority d b) \<le> doubleRank (cardPriority d a)) cs
          \<and> (\<forall>k. filter (\<lambda>c. doubleRank (cardPriority d c) = k) cs
                  = filter (\<lambda>c. doubleRank (cardPriority d c) = k) (eligibleInOrder d seg))"
proof -
  let ?el = "eligibleInOrder d seg"
  let ?cs = "sort_key (priorityKey d) ?el"
  have "mobileCards engine (Some d) seg = Inr (engineSort engine (comparePriority d) ?el)"
    using assms(1) by (intro mobileCards_typed) (simp add: typedPartners_def)
  then have res: "mobileCards engine (Some d) seg = Inr ?cs"
    using engineSort_numeric [OF assms(2)] by simp
  have "sorted (map (priorityKey d) ?cs)" by (rule sorted_sort_key)
  then have desc: "sorted_wrt (\<lambda>a b. doubleRank (cardPriority d b) \<le> doubleRank (cardPriority d a)) ?cs"
    by (simp add: sorted_map priorityKey_def)
  have stable: "filter (\<lambda>c. doubleRank (cardPriority d c) = k) ?cs
                = filter (\<lambda>c. doubleRank (cardPriority d c) = k) ?el" for k
    using sort_key_stable [of "priorityKey d" "- k" ?el] by (simp add: priorityKey_def)
  show ?thesis using res desc stable by simp
qed

text \<open>The priorities 5, 5 and 10 of the cards A, B and C give the order C, A, B.\<close>

lemma stable_example:
  "eligibleInOrder stableData ''All'' = [cardA, cardB, cardC]
   \<and> map (cardPriority stableData) [cardA, cardB, cardC] = [Num 5, Num 5, Num 10]
   \<and> mobileCards engine (Some stableData) ''All'' = Inr [cardC, cardA, cardB]"
proof -
  have a: "typedPartners stableData" by (simp add: typedPartners_def stableData_def ex_defs)
  have el: "eligibleInOrder stableData ''All'' = [cardA, cardB, cardC]"
    by (simp add: stableData_def gate_defs ex_defs)
  have p: "cardPriority stableData cardA = Num 5" "cardPriority stableData cardB = Num 5"
    "cardPriority stableData cardC = Num 10"
    by (simp_all add: stableData_def prio_defs ex_defs)
  have b: "\<forall>c\<in>set (eligibleInOrder stableData ''All''). cardPriority stableData c \<noteq> NaN"
    using p by (simp add: el)
  have "mobileCards engine (Some stableData) ''All''
        = Inr (engineSort engine (comparePriority stableData) [cardA, cardB, cardC])"
    using a el by (simp add: mobileCards_typed typedPartners_def)
  also have "engineSort engine (comparePriority stableData) [cardA, cardB, cardC]
             = sort_key (priorityKey stableData) [cardA, cardB, cardC]"
    using b el by (simp add: engineSort_numeric)
  also have "\<dots> = [cardC, cardA, cardB]"
    by (simp add: priorityKey_def p doubleRank_def)
  finally show ?thesis using el p by simp
qed

text \<open>
  Claim C1 at a priority text that is no number. Card A has the priority text \<open>high\<close>,
  card B has \<open>5\<close>, and both are eligible. The priority of A is NaN where the claim reads
  0; every comparison with it gives NaN, which the sort takes as equal, so whatever the
  engine A stays before B, and the result is not in descending order of priority.
\<close>

theorem unparseable_priority_not_sorted:
  "mobileCards engine (Some unparseableData) ''All'' = Inr [cardA, cardB]
   \<and> eligibleInOrder unparseableData ''All'' = [cardA, cardB]
   \<and> optionalField (firstRule unparseableData cardA) ''Priority'' = Some ''high''
   \<and> optionalField (firstRule unparseableData cardB) ''Priority'' = Some ''5''
   \<and> cardPriority unparseableData cardA = NaN
   \<and> specPriority unparseableData cardA = 0 \<and> specPriority unparseableData cardB = 5
   \<and> \<not> descending unparseableData [cardA, cardB]"
proof -
  have typed: "\<forall>p\<in>set (partnerMaster unparseableData). p ''Status'' \<noteq> None"
    by (simp add: unparseableData_def ex_defs)
  have el: "eligibleInOrder unparseableData ''All'' = [cardA, cardB]"
    by (simp add: unparseableData_def gate_defs ex_defs)
  have a: "cardPriority unparseableData cardA = NaN"
    by (simp add: unparseableData_def prio_defs ex_defs)
  have b: "cardPriority unparseableData cardB = Num 5"
    by (simp add: unparseableData_def prio_defs ex_defs)
  have ra: "optionalField (firstRule unparseableData cardA) ''Priority'' = Some ''high''"
    by (simp add: unparseableData_def firstRule_def optionalField_def ex_defs)
  have rb: "optionalField (firstRule unparseableData cardB) ''Priority'' = Some ''5''"
    by (simp add: unparseableData_def firstRule_def optionalField_def ex_defs)
  have "\<forall>x\<in>set [cardA, cardB]. \<forall>y\<in>set [cardA, cardB].
          sortCompare (comparePriority unparseableData) x y = 0"
    by (simp add: sortCompare_def comparePriority_def a b roundToDouble_small)
  then have "engineSort engine (comparePriority unparseableData) [cardA, cardB] = [cardA, cardB]"
    by (rule engineSort_all_equal)
  then have res: "mobileCards engine (Some unparseableData) ''All'' = Inr [cardA, cardB]"
    by (simp add: mobileCards_typed [OF typed] el)
  have sa: "specPriority unparseableData cardA = 0"
    by (simp add: specPriority_def ra orElse_def startsWithInteger_def trim_eval
        stripSign_def isDigit_def)
  have sb: "specPriority unparseableData cardB = 5"
    by (simp add: specPriority_def rb orElse_def startsWithInteger_def leadingInteger_def
        trim_eval stripSign_def isDigit_def decimalValue_def digitValue_def)
  show ?thesis using res el ra rb a sa sb by (simp add: descending_def)
qed

section \<open>The sample grid\<close>

text \<open>
  The sample grid parses into one partner and one card. Its card header has no
  \<open>Partner_ID\<close> column, so the card matches no partner: its dashboard row shows
  \<open>Unknown\<close>, and no card is eligible.
\<close>

lemmas sample_rows = partnerHeader_def partnerLine_def cardHeader_def cardLine_def

lemma sample_tests:
  "\<not> isBlankRow partnerHeader" "headerOf partnerHeader = Some Partner_Master"
  "\<not> isBlankRow partnerLine" "headerOf partnerLine = None"
  "isBlankRow [[]]"
  "\<not> isBlankRow cardHeader" "headerOf cardHeader = Some Card_UI_Config"
  "\<not> isBlankRow cardLine" "headerOf cardLine = None"
  by (simp_all add: sample_rows row_tests)

lemma sample_trim:
  "map trim partnerHeader = partnerHeader" "map trim cardHeader = cardHeader"
  by (simp_all add: sample_rows trim_eval)

lemma sample_parse: "parseGrid sampleGrid = sampleData"
  by (simp add: parseGrid_def sampleGrid_def scanRows_Cons scanRows_Nil processRow_cases
      sample_tests sample_trim pushRecord_def dataOf_def initialState_def sampleData_def
      samplePartner_def sampleCard_def)

lemma sample_fields:
  "samplePartner ''Partner_ID'' = Some ''P1''" "samplePartner ''Partner_Name'' = Some ''Acme Bank''"
  "samplePartner ''Status'' = Some ''Active''"
  "sampleCard ''Partner_ID'' = None" "sampleCard ''Config_ID'' = Some ''C1''"
  by (simp_all add: samplePartner_def sampleCard_def sample_rows buildRecord_def setProperty_def
      cellValue_def trim_eval)

lemma sample_end_to_end:
  "dashboardRows (Some (parseGrid sampleGrid)) = [dashboardRow sampleData sampleCard]"
  "dashboardRow sampleData sampleCard ''Partner_Name'' = Some ''Unknown''"
  "mobileCards engine (Some (parseGrid sampleGrid)) seg = Inr []"
  by (simp_all add: sample_parse dashboardRows_def sampleData_def dashboardRow_def engineSort_Nil
      optionalField_def orElse_def sample_fields mobileCards_def toUpperCase_spellings)

end
